theory Spec2Isabelle
  imports Main "HOL-Library.Multiset"
begin

section \<open>The schema\<close>

text \<open>
  The six tables that \<open>initializeDatabase\<close> creates, one record per row type, with the
  columns of the CREATE TABLE statements. Ids and foreign keys are \<open>int\<close> (the route
  parameters are the results of \<open>parseInt\<close> and may be any integer), timestamps are
  seconds on a clock that the environment supplies, \<open>post_id\<close> of a notification is
  nullable. A table is the list of its rows in insertion order. Column length limits
  and the range of INT are not modelled.
\<close>

record user_row =
  u_id :: int
  u_username :: string
  u_email :: string
  u_password_hash :: string
  u_is_admin :: bool
  u_created_at :: nat

record post_row =
  p_id :: int
  p_user_id :: int
  p_content :: string
  p_created_at :: nat

record comment_row =
  c_id :: int
  c_user_id :: int
  c_post_id :: int
  c_content :: string
  c_created_at :: nat

record like_row =
  l_id :: int
  l_user_id :: int
  l_post_id :: int
  l_created_at :: nat

record follow_row =
  f_id :: int
  f_follower_id :: int
  f_following_id :: int
  f_created_at :: nat

record notification_row =
  n_id :: int
  n_user_id :: int
  n_type :: string
  n_source_user_id :: int
  n_post_id :: "int option"
  n_is_read :: bool
  n_created_at :: nat

text \<open>
  The database: the rows of every table and the AUTO_INCREMENT counter of every table.
\<close>

record db =
  users :: "user_row list"
  posts :: "post_row list"
  comments :: "comment_row list"
  likes :: "like_row list"
  follows :: "follow_row list"
  notifications :: "notification_row list"
  next_user_id :: int
  next_post_id :: int
  next_comment_id :: int
  next_like_id :: int
  next_follow_id :: int
  next_notification_id :: int

definition empty_db :: db where
  "empty_db = \<lparr>users = [], posts = [], comments = [], likes = [], follows = [],
     notifications = [], next_user_id = 1, next_post_id = 1, next_comment_id = 1,
     next_like_id = 1, next_follow_id = 1, next_notification_id = 1\<rparr>"

section \<open>The environment of a request\<close>

text \<open>
  \<open>bcryptjs\<close>, \<open>jsonwebtoken\<close> and the clock are not code of the repository; a request
  is served in an environment that supplies them. \<open>bcrypt_hash\<close> is \<open>bcrypt.hash(_, 10)\<close>
  with the salt it draws for this request, \<open>jwt_sign\<close> and \<open>jwt_verify\<close> are
  \<open>jwt.sign(_, JWT_SECRET, {expiresIn: '24h'})\<close> and \<open>jwt.verify(_, JWT_SECRET)\<close> at the
  time of the request (\<open>None\<close> when \<open>verify\<close> throws), \<open>now\<close> is CURRENT_TIMESTAMP.
\<close>

record token_payload =
  userId :: int
  email :: string
  isAdmin :: bool

record env =
  bcrypt_hash :: "string \<Rightarrow> string"
  bcrypt_compare :: "string \<Rightarrow> string \<Rightarrow> bool"
  jwt_sign :: "token_payload \<Rightarrow> string"
  jwt_verify :: "string \<Rightarrow> token_payload option"
  now :: nat

section \<open>Responses\<close>

text \<open>
  The column lists of the SELECT statements whose rows go into a response, and the
  JSON bodies: \<open>ErrorBody\<close> is \<open>{success: false, error}\<close>, every other body of the API
  is \<open>{success: true, ...}\<close> with the data or message shown.
\<close>

record user_info =
  ui_id :: int
  ui_username :: string
  ui_email :: string
  ui_is_admin :: bool
  ui_created_at :: nat

record user_brief =
  ub_id :: int
  ub_username :: string
  ub_email :: string
  ub_created_at :: nat

record post_view =
  pv_post :: post_row
  pv_username :: string

record feed_row =
  fr_post :: post_row
  fr_username :: string
  fr_email :: string

record comment_view =
  cv_comment :: comment_row
  cv_username :: string

record notification_view =
  nv_notification :: notification_row
  nv_source_username :: "string option"
  nv_source_email :: "string option"
  nv_post_content :: "string option"
  nv_post_id :: "int option"
  nv_message :: "string option"

record profile =
  pr_user :: user_brief
  pr_posts :: nat
  pr_followers :: nat
  pr_following :: nat
  pr_isFollowing :: bool

datatype body =
    ErrorBody string
  | StatusBody string nat
  | FileBody string
  | AuthBody string user_info
  | PostBody "post_view option"
  | PostsBody "post_view list"
  | LikedBody bool
  | ProfileBody profile
  | FollowingBody bool
  | FeedBody "feed_row list"
  | CommentBody "comment_view option"
  | CommentsBody "comment_view list"
  | NotificationsBody "notification_view list"
  | MessageBody string
  | UsersBody "user_brief list"

record response =
  status :: nat
  body :: body

definition json :: "nat \<Rightarrow> body \<Rightarrow> response" where
  "json code b = \<lparr>status = code, body = b\<rparr>"

definition internal_error :: response where
  "internal_error = json 500 (ErrorBody ''Internal server error'')"

section \<open>The statements the handlers execute\<close>

text \<open>
  The database engine is not code of the repository. It is modelled as the schema
  declares it: a statement either fails on a constraint of its table and changes
  nothing, or takes effect at once (the handlers open no transaction). Requests are
  served one after the other; statements of different requests do not interleave.
\<close>

datatype sql_error = ER_DUP_ENTRY | ER_NO_REFERENCED_ROW

definition user_exists :: "db \<Rightarrow> int \<Rightarrow> bool" where
  "user_exists d i = (i \<in> set (map u_id (users d)))"

definition post_exists :: "db \<Rightarrow> int \<Rightarrow> bool" where
  "post_exists d i = (i \<in> set (map p_id (posts d)))"

text \<open>A nullable foreign key into posts: NULL references nothing.\<close>

definition post_ref_exists :: "db \<Rightarrow> int option \<Rightarrow> bool" where
  "post_ref_exists d pid = (case pid of None \<Rightarrow> True | Some p \<Rightarrow> post_exists d p)"

text \<open>
  An INSERT takes the next AUTO_INCREMENT value as id and CURRENT_TIMESTAMP as
  \<open>created_at\<close>, and fails on a UNIQUE or FOREIGN KEY constraint of the table;
  it returns \<open>insertId\<close> and the new database.
\<close>

definition insert_user ::
  "db \<Rightarrow> string \<Rightarrow> string \<Rightarrow> string \<Rightarrow> bool \<Rightarrow> nat \<Rightarrow> sql_error + (int \<times> db)" where
  "insert_user d username em hash adm t =
     (if username \<in> set (map u_username (users d)) \<or> em \<in> set (map u_email (users d))
      then Inl ER_DUP_ENTRY
      else Inr (next_user_id d,
        d\<lparr>users := users d @ [\<lparr>u_id = next_user_id d, u_username = username, u_email = em,
              u_password_hash = hash, u_is_admin = adm, u_created_at = t\<rparr>],
          next_user_id := next_user_id d + 1\<rparr>))"

definition insert_post :: "db \<Rightarrow> int \<Rightarrow> string \<Rightarrow> nat \<Rightarrow> sql_error + (int \<times> db)" where
  "insert_post d uid content t =
     (if \<not> user_exists d uid then Inl ER_NO_REFERENCED_ROW
      else Inr (next_post_id d,
        d\<lparr>posts := posts d @ [\<lparr>p_id = next_post_id d, p_user_id = uid, p_content = content,
              p_created_at = t\<rparr>],
          next_post_id := next_post_id d + 1\<rparr>))"

definition insert_comment ::
  "db \<Rightarrow> int \<Rightarrow> int \<Rightarrow> string \<Rightarrow> nat \<Rightarrow> sql_error + (int \<times> db)" where
  "insert_comment d uid pid content t =
     (if \<not> user_exists d uid \<or> \<not> post_exists d pid then Inl ER_NO_REFERENCED_ROW
      else Inr (next_comment_id d,
        d\<lparr>comments := comments d @ [\<lparr>c_id = next_comment_id d, c_user_id = uid,
              c_post_id = pid, c_content = content, c_created_at = t\<rparr>],
          next_comment_id := next_comment_id d + 1\<rparr>))"

definition insert_like :: "db \<Rightarrow> int \<Rightarrow> int \<Rightarrow> nat \<Rightarrow> sql_error + (int \<times> db)" where
  "insert_like d uid pid t =
     (if (uid, pid) \<in> set (map (\<lambda>l. (l_user_id l, l_post_id l)) (likes d))
      then Inl ER_DUP_ENTRY
      else if \<not> user_exists d uid \<or> \<not> post_exists d pid then Inl ER_NO_REFERENCED_ROW
      else Inr (next_like_id d,
        d\<lparr>likes := likes d @ [\<lparr>l_id = next_like_id d, l_user_id = uid, l_post_id = pid,
              l_created_at = t\<rparr>],
          next_like_id := next_like_id d + 1\<rparr>))"

definition insert_follow :: "db \<Rightarrow> int \<Rightarrow> int \<Rightarrow> nat \<Rightarrow> sql_error + (int \<times> db)" where
  "insert_follow d follower following t =
     (if (follower, following) \<in> set (map (\<lambda>f. (f_follower_id f, f_following_id f)) (follows d))
      then Inl ER_DUP_ENTRY
      else if \<not> user_exists d follower \<or> \<not> user_exists d following
      then Inl ER_NO_REFERENCED_ROW
      else Inr (next_follow_id d,
        d\<lparr>follows := follows d @ [\<lparr>f_id = next_follow_id d, f_follower_id = follower,
              f_following_id = following, f_created_at = t\<rparr>],
          next_follow_id := next_follow_id d + 1\<rparr>))"

definition insert_notification ::
  "db \<Rightarrow> int \<Rightarrow> string \<Rightarrow> int \<Rightarrow> int option \<Rightarrow> nat \<Rightarrow> sql_error + (int \<times> db)" where
  "insert_notification d uid ty src pid t =
     (if \<not> user_exists d uid \<or> \<not> user_exists d src \<or> \<not> post_ref_exists d pid
      then Inl ER_NO_REFERENCED_ROW
      else Inr (next_notification_id d,
        d\<lparr>notifications := notifications d @ [\<lparr>n_id = next_notification_id d,
              n_user_id = uid, n_type = ty, n_source_user_id = src, n_post_id = pid,
              n_is_read = False, n_created_at = t\<rparr>],
          next_notification_id := next_notification_id d + 1\<rparr>))"

text \<open>\<open>DELETE FROM likes WHERE user_id = ? AND post_id = ?\<close>, and the same on follows.\<close>

definition delete_like :: "db \<Rightarrow> int \<Rightarrow> int \<Rightarrow> db" where
  "delete_like d uid pid =
     d\<lparr>likes := filter (\<lambda>l. \<not> (l_user_id l = uid \<and> l_post_id l = pid)) (likes d)\<rparr>"

definition delete_follow :: "db \<Rightarrow> int \<Rightarrow> int \<Rightarrow> db" where
  "delete_follow d follower following =
     d\<lparr>follows := filter (\<lambda>f. \<not> (f_follower_id f = follower \<and> f_following_id f = following))
        (follows d)\<rparr>"

text \<open>\<open>UPDATE notifications SET is_read = TRUE WHERE id = ?\<close>\<close>

definition update_notification_read :: "db \<Rightarrow> int \<Rightarrow> db" where
  "update_notification_read d nid =
     d\<lparr>notifications :=
        map (\<lambda>n. if n_id n = nid then n\<lparr>n_is_read := True\<rparr> else n) (notifications d)\<rparr>"

text \<open>\<open>FROM a JOIN b ON ...\<close> and \<open>FROM a LEFT JOIN b ON ...\<close>\<close>

definition join_on :: "'a list \<Rightarrow> 'b list \<Rightarrow> ('a \<Rightarrow> 'b \<Rightarrow> bool) \<Rightarrow> ('a \<times> 'b) list" where
  "join_on xs ys on = concat (map (\<lambda>x. map (\<lambda>y. (x, y)) (filter (on x) ys)) xs)"

definition left_join_on ::
  "'a list \<Rightarrow> 'b list \<Rightarrow> ('a \<Rightarrow> 'b \<Rightarrow> bool) \<Rightarrow> ('a \<times> 'b option) list" where
  "left_join_on xs ys on =
     concat (map (\<lambda>x. case filter (on x) ys of [] \<Rightarrow> [(x, None)]
                                          | ms \<Rightarrow> map (\<lambda>y. (x, Some y)) ms) xs)"

text \<open>
  \<open>ORDER BY created_at DESC\<close> and \<open>ASC\<close>. The engine is free in the order of rows with
  equal timestamps; the model sorts stably.
\<close>

definition order_by_desc :: "('a \<Rightarrow> nat) \<Rightarrow> 'a list \<Rightarrow> 'a list" where
  "order_by_desc created xs = sort_key (\<lambda>x. - int (created x)) xs"

definition order_by_asc :: "('a \<Rightarrow> nat) \<Rightarrow> 'a list \<Rightarrow> 'a list" where
  "order_by_asc created xs = sort_key created xs"

definition first_row :: "'a list \<Rightarrow> 'a option" where
  "first_row rows = (case rows of [] \<Rightarrow> None | r # _ \<Rightarrow> Some r)"

section \<open>Authentication\<close>

text \<open>
  Fields of a JSON request body are absent (\<open>undefined\<close>) or strings. \<open>truthy\<close> is the
  test \<open>!x\<close> of the handlers read the other way round: it keeps a present, non-empty
  string.
\<close>

definition truthy :: "string option \<Rightarrow> string option" where
  "truthy x = (case x of None \<Rightarrow> None | Some s \<Rightarrow> if s = [] then None else Some s)"

text \<open>\<open>String.prototype.split\<close> on a one-character separator.\<close>

fun split_on :: "char \<Rightarrow> string \<Rightarrow> string list" where
  "split_on sep [] = [[]]"
| "split_on sep (x # xs) =
     (if x = sep then [] # split_on sep xs
      else (case split_on sep xs of [] \<Rightarrow> [[x]] | w # ws \<Rightarrow> (x # w) # ws))"

text \<open>\<open>String.prototype.endsWith\<close>\<close>

definition endsWith :: "string \<Rightarrow> string \<Rightarrow> bool" where
  "endsWith s suffix =
     (length suffix \<le> length s \<and> drop (length s - length suffix) s = suffix)"

text \<open>
  \<open>authHeader && authHeader.split(' ')[1]\<close>: the second piece of the Authorization
  header, \<open>None\<close> where the handler's \<open>!token\<close> holds (no header, an empty header, no
  second piece or an empty one).
\<close>

definition bearer_token :: "string option \<Rightarrow> string option" where
  "bearer_token authHeader =
     (case truthy authHeader of
        None \<Rightarrow> None
      | Some h \<Rightarrow> (case split_on CHR '' '' h of
                     _ # t # _ \<Rightarrow> truthy (Some t)
                   | _ \<Rightarrow> None))"

text \<open>
  The middleware \<open>authenticateToken\<close>: it answers the request itself (\<open>Inl\<close>) or sets
  \<open>req.user\<close> and calls \<open>next()\<close> (\<open>Inr\<close>).
\<close>

definition authenticateToken :: "env \<Rightarrow> string option \<Rightarrow> response + token_payload" where
  "authenticateToken e authHeader =
     (case bearer_token authHeader of
        None \<Rightarrow> Inl (json 401 (ErrorBody ''Access token required''))
      | Some token \<Rightarrow>
          (case jwt_verify e token of
             Some user \<Rightarrow> Inr user
           | None \<Rightarrow> Inl (json 403 (ErrorBody ''Invalid token''))))"

text \<open>The middleware \<open>requireAdmin\<close>, on the \<open>req.user\<close> it finds.\<close>

definition requireAdmin :: "token_payload option \<Rightarrow> response + token_payload" where
  "requireAdmin user =
     (case user of
        None \<Rightarrow> Inl (json 401 (ErrorBody ''Authentication required''))
      | Some u \<Rightarrow>
          if \<not> isAdmin u then Inl (json 403 (ErrorBody ''Admin access required''))
          else Inr u)"

definition user_info_of :: "user_row \<Rightarrow> user_info" where
  "user_info_of u = \<lparr>ui_id = u_id u, ui_username = u_username u, ui_email = u_email u,
     ui_is_admin = u_is_admin u, ui_created_at = u_created_at u\<rparr>"

definition user_brief_of :: "user_row \<Rightarrow> user_brief" where
  "user_brief_of u = \<lparr>ub_id = u_id u, ub_username = u_username u, ub_email = u_email u,
     ub_created_at = u_created_at u\<rparr>"

section \<open>The route handlers\<close>

text \<open>
  Every handler takes the database and returns its response and the database it
  leaves. The statements of a handler run one by one outside any transaction, so a
  statement that throws leaves the writes made before it in place; the handler's
  \<open>catch\<close> then answers 500.
\<close>

text \<open>POST /api/auth/register\<close>

definition register_handler ::
  "env \<Rightarrow> db \<Rightarrow> string option \<Rightarrow> string option \<Rightarrow> string option \<Rightarrow> response \<times> db" where
  "register_handler e d username em password =
     (case (truthy username, truthy em, truthy password) of
        (Some un, Some ema, Some pw) \<Rightarrow>
          (let existingUsers = filter (\<lambda>u. u_email u = ema) (users d) in
           if length existingUsers > 0
           then (json 400 (ErrorBody ''User already exists''), d)
           else
             (let hashedPassword = bcrypt_hash e pw;
                  adm = (endsWith ema ''_admin@gmail.com'' \<or> ema = ''admin@social.com'')
              in case insert_user d un ema hashedPassword adm (now e) of
                   Inl err \<Rightarrow> (internal_error, d)
                 | Inr (insertId, d1) \<Rightarrow>
                     (case first_row (filter (\<lambda>u. u_id u = insertId) (users d1)) of
                        None \<Rightarrow> (internal_error, d1)
                      | Some newUser \<Rightarrow>
                          (let token = jwt_sign e \<lparr>userId = u_id newUser,
                                 email = u_email newUser, isAdmin = u_is_admin newUser\<rparr>
                           in (json 201 (AuthBody token (user_info_of newUser)), d1)))))
      | _ \<Rightarrow> (json 400 (ErrorBody ''All fields are required''), d))"

text \<open>
  POST /api/auth/login. The driver throws on an \<open>undefined\<close> bind parameter and
  \<open>bcrypt.compare\<close> throws on an \<open>undefined\<close> password; both end in the \<open>catch\<close>.
\<close>

definition login_handler ::
  "env \<Rightarrow> db \<Rightarrow> string option \<Rightarrow> string option \<Rightarrow> response \<times> db" where
  "login_handler e d em password =
     (case em of
        None \<Rightarrow> (internal_error, d)
      | Some ema \<Rightarrow>
          (case first_row (filter (\<lambda>u. u_email u = ema) (users d)) of
             None \<Rightarrow> (json 401 (ErrorBody ''Invalid credentials''), d)
           | Some user \<Rightarrow>
               (case password of
                  None \<Rightarrow> (internal_error, d)
                | Some pw \<Rightarrow>
                    if \<not> bcrypt_compare e pw (u_password_hash user)
                    then (json 401 (ErrorBody ''Invalid credentials''), d)
                    else
                      (let token = jwt_sign e \<lparr>userId = u_id user, email = u_email user,
                             isAdmin = u_is_admin user\<rparr>
                       in (json 200 (AuthBody token (user_info_of user)), d)))))"

text \<open>\<open>SELECT p.*, u.username FROM posts p JOIN users u ON p.user_id = u.id\<close>\<close>

definition posts_with_username :: "db \<Rightarrow> post_view list" where
  "posts_with_username d =
     map (\<lambda>(p, u). \<lparr>pv_post = p, pv_username = u_username u\<rparr>)
       (join_on (posts d) (users d) (\<lambda>p u. p_user_id p = u_id u))"

text \<open>POST /api/posts\<close>

definition create_post_handler ::
  "env \<Rightarrow> db \<Rightarrow> token_payload \<Rightarrow> string option \<Rightarrow> response \<times> db" where
  "create_post_handler e d user content =
     (case truthy content of
        None \<Rightarrow> (json 400 (ErrorBody ''Content is required''), d)
      | Some c \<Rightarrow>
          (case insert_post d (userId user) c (now e) of
             Inl err \<Rightarrow> (internal_error, d)
           | Inr (insertId, d1) \<Rightarrow>
               (let newPost = first_row
                      (filter (\<lambda>v. p_id (pv_post v) = insertId) (posts_with_username d1))
                in (json 201 (PostBody newPost), d1))))"

text \<open>GET /api/posts\<close>

definition get_posts_handler :: "db \<Rightarrow> response \<times> db" where
  "get_posts_handler d =
     (json 200 (PostsBody (order_by_desc (\<lambda>v. p_created_at (pv_post v))
        (posts_with_username d))), d)"

text \<open>
  POST /api/posts/:postId/like. \<open>post.user_id\<close> throws when the SELECT on posts
  returned no row.
\<close>

definition like_handler :: "env \<Rightarrow> db \<Rightarrow> token_payload \<Rightarrow> int \<Rightarrow> response \<times> db" where
  "like_handler e d user postId =
     (let uid = userId user;
          existingLikes = filter (\<lambda>l. l_user_id l = uid \<and> l_post_id l = postId) (likes d)
      in if length existingLikes > 0
         then (json 200 (LikedBody False), delete_like d uid postId)
         else
           (case insert_like d uid postId (now e) of
              Inl err \<Rightarrow> (internal_error, d)
            | Inr (insertId, d1) \<Rightarrow>
                (case first_row (filter (\<lambda>p. p_id p = postId) (posts d1)) of
                   None \<Rightarrow> (internal_error, d1)
                 | Some post \<Rightarrow>
                     if p_user_id post \<noteq> uid
                     then
                       (case insert_notification d1 (p_user_id post) ''like'' uid
                               (Some postId) (now e) of
                          Inl err \<Rightarrow> (internal_error, d1)
                        | Inr (nid, d2) \<Rightarrow> (json 200 (LikedBody True), d2))
                     else (json 200 (LikedBody True), d1))))"

text \<open>
  GET /api/users/:userId, on the \<open>req.user\<close> it finds: the \<open>if (req.user)\<close> of the
  handler is the case distinction on \<open>user\<close>.
\<close>

definition get_user_handler :: "db \<Rightarrow> token_payload option \<Rightarrow> int \<Rightarrow> response \<times> db" where
  "get_user_handler d user uid =
     (case first_row (map user_brief_of (filter (\<lambda>u. u_id u = uid) (users d))) of
        None \<Rightarrow> (json 404 (ErrorBody ''User not found''), d)
      | Some found \<Rightarrow>
          (let postCount = length (filter (\<lambda>p. p_user_id p = uid) (posts d));
               followerCount = length (filter (\<lambda>f. f_following_id f = uid) (follows d));
               followingCount = length (filter (\<lambda>f. f_follower_id f = uid) (follows d));
               following =
                 (case user of
                    None \<Rightarrow> False
                  | Some u \<Rightarrow>
                      length (filter (\<lambda>f. f_follower_id f = userId u \<and> f_following_id f = uid)
                        (follows d)) > 0)
           in (json 200 (ProfileBody \<lparr>pr_user = found, pr_posts = postCount,
                 pr_followers = followerCount, pr_following = followingCount,
                 pr_isFollowing = following\<rparr>), d)))"

text \<open>POST /api/users/:userId/follow\<close>

definition follow_handler :: "env \<Rightarrow> db \<Rightarrow> token_payload \<Rightarrow> int \<Rightarrow> response \<times> db" where
  "follow_handler e d user targetUserId =
     (let followerId = userId user in
      if targetUserId = followerId
      then (json 400 (ErrorBody ''Cannot follow yourself''), d)
      else if length (filter (\<lambda>u. u_id u = targetUserId) (users d)) = 0
      then (json 404 (ErrorBody ''User not found''), d)
      else
        (let existingFollows =
               filter (\<lambda>f. f_follower_id f = followerId \<and> f_following_id f = targetUserId)
                 (follows d)
         in if length existingFollows > 0
            then (json 200 (FollowingBody False), delete_follow d followerId targetUserId)
            else
              (case insert_follow d followerId targetUserId (now e) of
                 Inl err \<Rightarrow> (internal_error, d)
               | Inr (insertId, d1) \<Rightarrow>
                   (case insert_notification d1 targetUserId ''follow'' followerId None
                           (now e) of
                      Inl err \<Rightarrow> (internal_error, d1)
                    | Inr (nid, d2) \<Rightarrow> (json 200 (FollowingBody True), d2)))))"

text \<open>
  GET /api/feed:
  \<open>SELECT p.*, u.username, u.email FROM posts p JOIN users u ON p.user_id = u.id
   WHERE p.user_id IN (SELECT following_id FROM follows WHERE follower_id = ?)
      OR p.user_id = ? ORDER BY p.created_at DESC\<close>
\<close>

definition feed_query :: "db \<Rightarrow> int \<Rightarrow> feed_row list" where
  "feed_query d uid =
     order_by_desc (\<lambda>r. p_created_at (fr_post r))
       (map (\<lambda>(p, u). \<lparr>fr_post = p, fr_username = u_username u, fr_email = u_email u\<rparr>)
          (filter (\<lambda>(p, u).
              p_user_id p \<in> set (map f_following_id
                                  (filter (\<lambda>f. f_follower_id f = uid) (follows d)))
              \<or> p_user_id p = uid)
            (join_on (posts d) (users d) (\<lambda>p u. p_user_id p = u_id u))))"

definition feed_handler :: "db \<Rightarrow> token_payload \<Rightarrow> response \<times> db" where
  "feed_handler d user = (json 200 (FeedBody (feed_query d (userId user))), d)"

text \<open>\<open>SELECT c.*, u.username FROM comments c JOIN users u ON c.user_id = u.id\<close>\<close>

definition comments_with_username :: "db \<Rightarrow> comment_view list" where
  "comments_with_username d =
     map (\<lambda>(c, u). \<lparr>cv_comment = c, cv_username = u_username u\<rparr>)
       (join_on (comments d) (users d) (\<lambda>c u. c_user_id c = u_id u))"

text \<open>POST /api/posts/:postId/comments\<close>

definition add_comment_handler ::
  "env \<Rightarrow> db \<Rightarrow> token_payload \<Rightarrow> int \<Rightarrow> string option \<Rightarrow> response \<times> db" where
  "add_comment_handler e d user postId content =
     (let uid = userId user in
      case truthy content of
        None \<Rightarrow> (json 400 (ErrorBody ''Content is required''), d)
      | Some c \<Rightarrow>
          (case insert_comment d uid postId c (now e) of
             Inl err \<Rightarrow> (internal_error, d)
           | Inr (insertId, d1) \<Rightarrow>
               (let newComment = first_row
                      (filter (\<lambda>v. c_id (cv_comment v) = insertId) (comments_with_username d1))
                in case first_row (filter (\<lambda>p. p_id p = postId) (posts d1)) of
                     None \<Rightarrow> (internal_error, d1)
                   | Some post \<Rightarrow>
                       if p_user_id post \<noteq> uid
                       then
                         (case insert_notification d1 (p_user_id post) ''comment'' uid
                                 (Some postId) (now e) of
                            Inl err \<Rightarrow> (internal_error, d1)
                          | Inr (nid, d2) \<Rightarrow> (json 201 (CommentBody newComment), d2))
                       else (json 201 (CommentBody newComment), d1))))"

text \<open>GET /api/posts/:postId/comments\<close>

definition get_comments_handler :: "db \<Rightarrow> int \<Rightarrow> response \<times> db" where
  "get_comments_handler d postId =
     (json 200 (CommentsBody (order_by_asc (\<lambda>v. c_created_at (cv_comment v))
        (filter (\<lambda>v. c_post_id (cv_comment v) = postId) (comments_with_username d)))), d)"

text \<open>
  GET /api/notifications. \<open>CONCAT\<close> is NULL when the left join found no source user;
  \<open>p.id as post_id\<close> replaces the notification's own \<open>post_id\<close> in the row object.
\<close>

definition notification_message :: "string \<Rightarrow> string option \<Rightarrow> string option" where
  "notification_message ty username =
     (if ty = ''follow'' then map_option (\<lambda>n. n @ '' started following you'') username
      else if ty = ''like'' then map_option (\<lambda>n. n @ '' liked your post'') username
      else if ty = ''comment'' then map_option (\<lambda>n. n @ '' commented on your post'') username
      else Some ''New notification'')"

definition notifications_query :: "db \<Rightarrow> int \<Rightarrow> notification_view list" where
  "notifications_query d uid =
     take 50 (order_by_desc (\<lambda>v. n_created_at (nv_notification v))
       (map (\<lambda>((n, u), p).
              \<lparr>nv_notification = n,
               nv_source_username = map_option u_username u,
               nv_source_email = map_option u_email u,
               nv_post_content = map_option p_content p,
               nv_post_id = map_option p_id p,
               nv_message = notification_message (n_type n) (map_option u_username u)\<rparr>)
          (filter (\<lambda>((n, u), p). n_user_id n = uid)
            (left_join_on
               (left_join_on (notifications d) (users d) (\<lambda>n u. n_source_user_id n = u_id u))
               (posts d) (\<lambda>(n, u) p. n_post_id n = Some (p_id p))))))"

definition get_notifications_handler :: "db \<Rightarrow> token_payload \<Rightarrow> response \<times> db" where
  "get_notifications_handler d user =
     (json 200 (NotificationsBody (notifications_query d (userId user))), d)"

text \<open>PATCH /api/notifications/:notificationId/read\<close>

definition mark_read_handler :: "db \<Rightarrow> token_payload \<Rightarrow> int \<Rightarrow> response \<times> db" where
  "mark_read_handler d user notificationId =
     (let uid = userId user;
          found = filter (\<lambda>n. n_id n = notificationId \<and> n_user_id n = uid) (notifications d)
      in if length found = 0
         then (json 404 (ErrorBody ''Notification not found''), d)
         else (json 200 (MessageBody ''Notification marked as read''),
               update_notification_read d notificationId))"

text \<open>GET /api/admin/users, behind both middlewares.\<close>

definition admin_users_handler :: "db \<Rightarrow> response \<times> db" where
  "admin_users_handler d =
     (json 200 (UsersBody (map user_brief_of (order_by_desc u_created_at (users d)))), d)"

section \<open>The route table\<close>

text \<open>
  A request names its route and carries the Authorization header (if any), the route
  parameter as the integer \<open>parseInt\<close> reads from it (a parameter that \<open>parseInt\<close>
  cannot read is outside the model) and the fields of its body. GET / and GET /api
  read no table.
\<close>

datatype request =
    GetRoot
  | GetApi
  | PostRegister "string option" "string option" "string option"
  | PostLogin "string option" "string option"
  | PostPosts "string option" "string option"
  | GetPosts
  | PostLike "string option" int
  | GetUser "string option" int
  | PostFollow "string option" int
  | GetFeed "string option"
  | PostComments "string option" int "string option"
  | GetComments int
  | GetNotifications "string option"
  | PatchRead "string option" int
  | GetAdminUsers "string option"

text \<open>
  A route registered with \<open>authenticateToken\<close> runs its handler on the payload the
  middleware put into \<open>req.user\<close>, or stops at the middleware's response.
\<close>

definition with_auth ::
  "env \<Rightarrow> db \<Rightarrow> string option \<Rightarrow> (token_payload \<Rightarrow> response \<times> db) \<Rightarrow> response \<times> db" where
  "with_auth e d authHeader handler =
     (case authenticateToken e authHeader of
        Inl res \<Rightarrow> (res, d)
      | Inr user \<Rightarrow> handler user)"

text \<open>
  The routes as \<open>app.get\<close>, \<open>app.post\<close> and \<open>app.patch\<close> register them. GET
  /api/users/:userId is registered with its handler alone: no middleware of the
  application sets \<open>req.user\<close> before it, whatever header the request carries.
\<close>

fun app :: "env \<Rightarrow> db \<Rightarrow> request \<Rightarrow> response \<times> db" where
  "app e d GetRoot = (json 200 (FileBody ''webpage.html''), d)"
| "app e d GetApi = (json 200 (StatusBody ''Social Media API is running!'' (now e)), d)"
| "app e d (PostRegister username em password) = register_handler e d username em password"
| "app e d (PostLogin em password) = login_handler e d em password"
| "app e d (PostPosts auth content) =
     with_auth e d auth (\<lambda>user. create_post_handler e d user content)"
| "app e d GetPosts = get_posts_handler d"
| "app e d (PostLike auth postId) =
     with_auth e d auth (\<lambda>user. like_handler e d user postId)"
| "app e d (GetUser auth uid) = get_user_handler d None uid"
| "app e d (PostFollow auth uid) =
     with_auth e d auth (\<lambda>user. follow_handler e d user uid)"
| "app e d (GetFeed auth) = with_auth e d auth (\<lambda>user. feed_handler d user)"
| "app e d (PostComments auth postId content) =
     with_auth e d auth (\<lambda>user. add_comment_handler e d user postId content)"
| "app e d (GetComments postId) = get_comments_handler d postId"
| "app e d (GetNotifications auth) =
     with_auth e d auth (\<lambda>user. get_notifications_handler d user)"
| "app e d (PatchRead auth nid) =
     with_auth e d auth (\<lambda>user. mark_read_handler d user nid)"
| "app e d (GetAdminUsers auth) =
     with_auth e d auth (\<lambda>user.
       case requireAdmin (Some user) of
         Inl res \<Rightarrow> (res, d)
       | Inr u \<Rightarrow> admin_users_handler d)"

text \<open>The states the application can be in: the empty tables, and what requests make of them.\<close>

inductive reachable :: "db \<Rightarrow> bool" where
  reachable_init: "reachable empty_db"
| reachable_step: "reachable d \<Longrightarrow> reachable (snd (app e d req))"

section \<open>The constraints of the schema, as predicates on a database\<close>

definition like_pairs :: "db \<Rightarrow> (int \<times> int) list" where
  "like_pairs d = map (\<lambda>l. (l_user_id l, l_post_id l)) (likes d)"

definition follow_pairs :: "db \<Rightarrow> (int \<times> int) list" where
  "follow_pairs d = map (\<lambda>f. (f_follower_id f, f_following_id f)) (follows d)"

text \<open>\<open>UNIQUE(user_id, post_id)\<close> on likes and \<open>UNIQUE(follower_id, following_id)\<close> on follows.\<close>

definition uq_likes :: "db \<Rightarrow> bool" where
  "uq_likes d = distinct (like_pairs d)"

definition uq_follows :: "db \<Rightarrow> bool" where
  "uq_follows d = distinct (follow_pairs d)"

text \<open>\<open>UNIQUE\<close> on the username and on the email of users.\<close>

definition uq_users :: "db \<Rightarrow> bool" where
  "uq_users d = (distinct (map u_username (users d)) \<and> distinct (map u_email (users d)))"

text \<open>The primary keys: ids are distinct and below the table's AUTO_INCREMENT counter.\<close>

definition pk_users :: "db \<Rightarrow> bool" where
  "pk_users d = (distinct (map u_id (users d)) \<and> (\<forall>u\<in>set (users d). u_id u < next_user_id d))"

definition pk_posts :: "db \<Rightarrow> bool" where
  "pk_posts d = (distinct (map p_id (posts d)) \<and> (\<forall>p\<in>set (posts d). p_id p < next_post_id d))"

definition pk_comments :: "db \<Rightarrow> bool" where
  "pk_comments d =
     (distinct (map c_id (comments d)) \<and> (\<forall>c\<in>set (comments d). c_id c < next_comment_id d))"

definition pk_likes :: "db \<Rightarrow> bool" where
  "pk_likes d = (distinct (map l_id (likes d)) \<and> (\<forall>l\<in>set (likes d). l_id l < next_like_id d))"

definition pk_follows :: "db \<Rightarrow> bool" where
  "pk_follows d =
     (distinct (map f_id (follows d)) \<and> (\<forall>f\<in>set (follows d). f_id f < next_follow_id d))"

definition pk_notifications :: "db \<Rightarrow> bool" where
  "pk_notifications d =
     (distinct (map n_id (notifications d))
      \<and> (\<forall>n\<in>set (notifications d). n_id n < next_notification_id d))"

text \<open>The foreign keys.\<close>

definition fk_posts :: "db \<Rightarrow> bool" where
  "fk_posts d = (\<forall>p\<in>set (posts d). user_exists d (p_user_id p))"

definition fk_comments :: "db \<Rightarrow> bool" where
  "fk_comments d =
     (\<forall>c\<in>set (comments d). user_exists d (c_user_id c) \<and> post_exists d (c_post_id c))"

definition fk_likes :: "db \<Rightarrow> bool" where
  "fk_likes d = (\<forall>l\<in>set (likes d). user_exists d (l_user_id l) \<and> post_exists d (l_post_id l))"

definition fk_follows :: "db \<Rightarrow> bool" where
  "fk_follows d =
     (\<forall>f\<in>set (follows d). user_exists d (f_follower_id f) \<and> user_exists d (f_following_id f))"

definition fk_notifications :: "db \<Rightarrow> bool" where
  "fk_notifications d =
     (\<forall>n\<in>set (notifications d).
        user_exists d (n_user_id n) \<and> user_exists d (n_source_user_id n)
        \<and> post_ref_exists d (n_post_id n))"

definition db_inv :: "db \<Rightarrow> bool" where
  "db_inv d =
     (pk_users d \<and> pk_posts d \<and> pk_comments d \<and> pk_likes d \<and> pk_follows d
      \<and> pk_notifications d \<and> uq_users d \<and> uq_likes d \<and> uq_follows d
      \<and> fk_posts d \<and> fk_comments d \<and> fk_likes d \<and> fk_follows d \<and> fk_notifications d)"

text \<open>Descending order of a list of timestamps.\<close>

definition descending :: "nat list \<Rightarrow> bool" where
  "descending ts = sorted_wrt (\<lambda>a b. b \<le> a) ts"

section \<open>A small database for examples\<close>

text \<open>
  Three users (alice, bob and the administrator), one post of alice and one of bob;
  alice follows bob and likes bob's post, and bob has the two notifications of that.
\<close>

definition alice :: token_payload where
  "alice = \<lparr>userId = 1, email = ''alice@example.com'', isAdmin = False\<rparr>"

definition bob :: token_payload where
  "bob = \<lparr>userId = 2, email = ''bob@example.com'', isAdmin = False\<rparr>"

definition root :: token_payload where
  "root = \<lparr>userId = 3, email = ''admin@social.com'', isAdmin = True\<rparr>"

definition env0 :: env where
  "env0 = \<lparr>bcrypt_hash = (\<lambda>pw. ''$2a$10$'' @ pw),
           bcrypt_compare = (\<lambda>pw h. h = ''$2a$10$'' @ pw),
           jwt_sign = (\<lambda>p. ''jwt.'' @ email p),
           jwt_verify = (\<lambda>t. if t = ''jwt.alice@example.com'' then Some alice
                              else if t = ''jwt.bob@example.com'' then Some bob
                              else if t = ''jwt.admin@social.com'' then Some root
                              else None),
           now = 100\<rparr>"

definition db0 :: db where
  "db0 = \<lparr>users =
            [\<lparr>u_id = 1, u_username = ''alice'', u_email = ''alice@example.com'',
              u_password_hash = ''$2a$10$wonderland'', u_is_admin = False, u_created_at = 1\<rparr>,
             \<lparr>u_id = 2, u_username = ''bob'', u_email = ''bob@example.com'',
              u_password_hash = ''$2a$10$builder'', u_is_admin = False, u_created_at = 2\<rparr>,
             \<lparr>u_id = 3, u_username = ''root'', u_email = ''admin@social.com'',
              u_password_hash = ''$2a$10$toor'', u_is_admin = True, u_created_at = 3\<rparr>],
          posts =
            [\<lparr>p_id = 1, p_user_id = 1, p_content = ''hello'', p_created_at = 10\<rparr>,
             \<lparr>p_id = 2, p_user_id = 2, p_content = ''world'', p_created_at = 20\<rparr>],
          comments = [],
          likes = [\<lparr>l_id = 1, l_user_id = 1, l_post_id = 2, l_created_at = 40\<rparr>],
          follows = [\<lparr>f_id = 1, f_follower_id = 1, f_following_id = 2, f_created_at = 30\<rparr>],
          notifications =
            [\<lparr>n_id = 1, n_user_id = 2, n_type = ''follow'', n_source_user_id = 1,
              n_post_id = None, n_is_read = False, n_created_at = 30\<rparr>,
             \<lparr>n_id = 2, n_user_id = 2, n_type = ''like'', n_source_user_id = 1,
              n_post_id = Some 2, n_is_read = False, n_created_at = 40\<rparr>],
          next_user_id = 4, next_post_id = 3, next_comment_id = 1, next_like_id = 2,
          next_follow_id = 2, next_notification_id = 3\<rparr>"

section \<open>The writes a handler can make\<close>

text \<open>
  One statement that changes the database: a successful INSERT, one of the two DELETEs
  or the UPDATE. Every handler makes a sequence of these.
\<close>

inductive stmt :: "db \<Rightarrow> db \<Rightarrow> bool" where
  stmt_user: "insert_user d un em h a t = Inr (i, d') \<Longrightarrow> stmt d d'"
| stmt_post: "insert_post d u c t = Inr (i, d') \<Longrightarrow> stmt d d'"
| stmt_comment: "insert_comment d u p c t = Inr (i, d') \<Longrightarrow> stmt d d'"
| stmt_like: "insert_like d u p t = Inr (i, d') \<Longrightarrow> stmt d d'"
| stmt_follow: "insert_follow d u v t = Inr (i, d') \<Longrightarrow> stmt d d'"
| stmt_notification: "insert_notification d u ty src p t = Inr (i, d') \<Longrightarrow> stmt d d'"
| stmt_unlike: "stmt d (delete_like d u p)"
| stmt_unfollow: "stmt d (delete_follow d u v)"
| stmt_read: "stmt d (update_notification_read d n)"

section \<open>Facts about the examples and the middleware\<close>

lemmas fixtures = env0_def db0_def alice_def bob_def root_def
lemmas auth_defs = authenticateToken_def bearer_token_def truthy_def with_auth_def

lemma auth_bob: "authenticateToken env0 (Some ''Bearer jwt.bob@example.com'') = Inr bob"
  by (simp add: auth_defs env0_def)

lemma auth_alice: "authenticateToken env0 (Some ''Bearer jwt.alice@example.com'') = Inr alice"
  by (simp add: auth_defs env0_def)


section \<open>Every handler is a sequence of writes\<close>

lemma writes_0: "stmt\<^sup>*\<^sup>* d d"
  by simp

lemma writes_1: "stmt d d' \<Longrightarrow> stmt\<^sup>*\<^sup>* d d'"
  by simp

lemma writes_2: "stmt d d1 \<Longrightarrow> stmt d1 d2 \<Longrightarrow> stmt\<^sup>*\<^sup>* d d2"
  by (meson rtranclp.rtrancl_into_rtrancl r_into_rtranclp)

lemma with_auth_writes:
  assumes "\<And>user. stmt\<^sup>*\<^sup>* d (snd (h user))"
  shows "stmt\<^sup>*\<^sup>* d (snd (with_auth e d auth h))"
  using assms by (simp add: with_auth_def split: sum.splits)

lemma register_writes: "stmt\<^sup>*\<^sup>* d (snd (register_handler e d un em pw))"
  unfolding register_handler_def Let_def
  by (auto split: option.splits sum.splits prod.splits intro: writes_1 stmt_user)

lemma login_writes: "snd (login_handler e d em pw) = d"
  unfolding login_handler_def Let_def
  by (simp split: option.splits)

lemma create_post_writes: "stmt\<^sup>*\<^sup>* d (snd (create_post_handler e d u c))"
  unfolding create_post_handler_def Let_def
  by (auto split: option.splits sum.splits prod.splits intro: writes_1 stmt_post)

lemma like_writes: "stmt\<^sup>*\<^sup>* d (snd (like_handler e d u p))"
  unfolding like_handler_def Let_def
  by (auto split: option.splits sum.splits prod.splits
           intro: writes_1 writes_2 stmt_like stmt_notification stmt_unlike)

lemma follow_writes: "stmt\<^sup>*\<^sup>* d (snd (follow_handler e d u t))"
  unfolding follow_handler_def Let_def
  by (auto split: option.splits sum.splits prod.splits
           intro: writes_1 writes_2 stmt_follow stmt_notification stmt_unfollow)

lemma add_comment_writes: "stmt\<^sup>*\<^sup>* d (snd (add_comment_handler e d u p c))"
  unfolding add_comment_handler_def Let_def
  by (auto split: option.splits sum.splits prod.splits
           intro: writes_1 writes_2 stmt_comment stmt_notification)

lemma mark_read_writes: "stmt\<^sup>*\<^sup>* d (snd (mark_read_handler d u n))"
  unfolding mark_read_handler_def Let_def
  by (auto intro: writes_1 stmt_read)

lemma admin_writes:
  "stmt\<^sup>*\<^sup>* d (snd (case requireAdmin (Some u) of Inl res \<Rightarrow> (res, d)
                                | Inr x \<Rightarrow> admin_users_handler d))"
  by (simp add: admin_users_handler_def split: sum.splits)

lemma app_writes: "stmt\<^sup>*\<^sup>* d (snd (app e d req))"
proof (cases req)
  case (PostRegister un em pw)
  then show ?thesis by (simp add: register_writes)
next
  case (PostLogin em pw)
  then show ?thesis by (simp add: login_writes)
next
  case (PostPosts auth content)
  then show ?thesis by (simp add: with_auth_writes create_post_writes)
next
  case (PostLike auth p)
  then show ?thesis by (simp add: with_auth_writes like_writes)
next
  case (GetUser auth u)
  then show ?thesis by (simp add: get_user_handler_def Let_def split: option.splits)
next
  case (PostFollow auth u)
  then show ?thesis by (simp add: with_auth_writes follow_writes)
next
  case (GetFeed auth)
  then show ?thesis by (simp add: with_auth_writes feed_handler_def)
next
  case (PostComments auth p c)
  then show ?thesis by (simp add: with_auth_writes add_comment_writes)
next
  case (GetComments p)
  then show ?thesis by (simp add: get_comments_handler_def)
next
  case (GetNotifications auth)
  then show ?thesis by (simp add: with_auth_writes get_notifications_handler_def)
next
  case (PatchRead auth n)
  then show ?thesis by (simp add: with_auth_writes mark_read_writes)
next
  case (GetAdminUsers auth)
  then show ?thesis by (simp add: with_auth_writes admin_writes)
qed (simp_all add: get_posts_handler_def)

lemma app_preserves:
  assumes step: "\<And>d d'. stmt d d' \<Longrightarrow> P d \<Longrightarrow> P d'" and "P d"
  shows "P (snd (app e d req))"
  using app_writes [of d e req] assms(2)
  by (induction rule: rtranclp_induct) (auto intro: step)

lemma reachable_invariant:
  assumes init: "P empty_db" and step: "\<And>d d'. stmt d d' \<Longrightarrow> P d \<Longrightarrow> P d'"
    and "reachable d"
  shows "P d"
  using assms(3)
  by (induction rule: reachable.induct) (auto intro: init app_preserves step)


section \<open>The constraints hold in every reachable database\<close>

lemmas insert_defs = insert_user_def insert_post_def insert_comment_def insert_like_def
  insert_follow_def insert_notification_def
lemmas change_defs = insert_defs delete_like_def delete_follow_def update_notification_read_def
lemmas inv_defs = pk_users_def pk_posts_def pk_comments_def pk_likes_def pk_follows_def
  pk_notifications_def uq_users_def uq_likes_def uq_follows_def fk_posts_def fk_comments_def
  fk_likes_def fk_follows_def fk_notifications_def like_pairs_def follow_pairs_def
  user_exists_def post_exists_def post_ref_exists_def

lemma stmt_uq:
  assumes "stmt d d'" and "uq_likes d \<and> uq_follows d"
  shows "uq_likes d' \<and> uq_follows d'"
  using assms
  by (cases rule: stmt.cases)
     (auto simp: change_defs uq_likes_def uq_follows_def like_pairs_def follow_pairs_def
           distinct_map_filter split: if_splits)

lemma empty_db_inv: "db_inv empty_db"
  by (simp add: db_inv_def inv_defs empty_db_def)

lemma stmt_pk_users:
  assumes "stmt d d'" and "pk_users d"
  shows "pk_users d'"
  using assms
  by (cases rule: stmt.cases)
     (fastforce simp: change_defs pk_users_def split: if_splits)+

lemma stmt_pk_posts:
  assumes "stmt d d'" and "pk_posts d"
  shows "pk_posts d'"
  using assms
  by (cases rule: stmt.cases)
     (fastforce simp: change_defs pk_posts_def split: if_splits)+

lemma stmt_pk_comments:
  assumes "stmt d d'" and "pk_comments d"
  shows "pk_comments d'"
  using assms
  by (cases rule: stmt.cases)
     (fastforce simp: change_defs pk_comments_def split: if_splits)+

lemma stmt_pk_likes:
  assumes "stmt d d'" and "pk_likes d"
  shows "pk_likes d'"
  using assms
proof (cases rule: stmt.cases)
  case (stmt_like u p t i)
  then show ?thesis using assms(2)
    by (fastforce simp: insert_like_def pk_likes_def split: if_splits)
next
  case (stmt_unlike u p)
  then show ?thesis using assms(2)
    by (simp add: delete_like_def pk_likes_def distinct_map_filter)
qed (auto simp: change_defs pk_likes_def split: if_splits)

lemma stmt_pk_follows:
  assumes "stmt d d'" and "pk_follows d"
  shows "pk_follows d'"
  using assms
proof (cases rule: stmt.cases)
  case (stmt_follow u v t i)
  then show ?thesis using assms(2)
    by (fastforce simp: insert_follow_def pk_follows_def split: if_splits)
next
  case (stmt_unfollow u v)
  then show ?thesis using assms(2)
    by (simp add: delete_follow_def pk_follows_def distinct_map_filter)
qed (auto simp: change_defs pk_follows_def split: if_splits)

lemma read_keeps_ids:
  "map (n_id \<circ> (\<lambda>n. if n_id n = k then n\<lparr>n_is_read := True\<rparr> else n)) ns = map n_id ns"
  by (induction ns) auto

lemma pk_notifications_ids:
  "pk_notifications d =
     (distinct (map n_id (notifications d))
      \<and> (\<forall>i\<in>set (map n_id (notifications d)). i < next_notification_id d))"
  by (auto simp: pk_notifications_def)

lemma stmt_pk_notifications:
  assumes "stmt d d'" and "pk_notifications d"
  shows "pk_notifications d'"
  using assms
proof (cases rule: stmt.cases)
  case (stmt_notification u ty src p t i)
  then show ?thesis using assms(2)
    by (fastforce simp: insert_notification_def pk_notifications_def split: if_splits)
next
  case (stmt_read n)
  then show ?thesis using assms(2)
    unfolding pk_notifications_ids
    by (simp add: update_notification_read_def read_keeps_ids del: set_map)
qed (auto simp: change_defs pk_notifications_def split: if_splits)

lemma stmt_uq_users:
  assumes "stmt d d'" and "uq_users d"
  shows "uq_users d'"
  using assms
  by (cases rule: stmt.cases)
     (fastforce simp: change_defs uq_users_def split: if_splits)+

lemma stmt_user_exists:
  assumes "stmt d d'" and "user_exists d i"
  shows "user_exists d' i"
  using assms
  by (cases rule: stmt.cases) (auto simp: change_defs user_exists_def split: if_splits)

lemma stmt_post_exists:
  assumes "stmt d d'" and "post_exists d i"
  shows "post_exists d' i"
  using assms
  by (cases rule: stmt.cases) (auto simp: change_defs post_exists_def split: if_splits)

lemma stmt_post_ref_exists:
  assumes "stmt d d'" and "post_ref_exists d pid"
  shows "post_ref_exists d' pid"
  using assms stmt_post_exists [of d d']
  by (cases pid) (simp_all add: post_ref_exists_def)

lemma stmt_fk_posts:
  assumes "stmt d d'" and "fk_posts d"
  shows "fk_posts d'"
proof -
  have "\<forall>p\<in>set (posts d'). p \<in> set (posts d) \<or> user_exists d (p_user_id p)"
    using assms(1) by (cases rule: stmt.cases) (auto simp: change_defs split: if_splits)
  then show ?thesis
    using assms(2) stmt_user_exists [OF assms(1)] unfolding fk_posts_def by blast
qed

lemma stmt_fk_comments:
  assumes "stmt d d'" and "fk_comments d"
  shows "fk_comments d'"
proof -
  have "\<forall>c\<in>set (comments d'). c \<in> set (comments d)
          \<or> (user_exists d (c_user_id c) \<and> post_exists d (c_post_id c))"
    using assms(1) by (cases rule: stmt.cases) (auto simp: change_defs split: if_splits)
  then show ?thesis
    using assms(2) stmt_user_exists [OF assms(1)] stmt_post_exists [OF assms(1)]
    unfolding fk_comments_def by blast
qed

lemma stmt_fk_likes:
  assumes "stmt d d'" and "fk_likes d"
  shows "fk_likes d'"
proof -
  have "\<forall>l\<in>set (likes d'). l \<in> set (likes d)
          \<or> (user_exists d (l_user_id l) \<and> post_exists d (l_post_id l))"
    using assms(1) by (cases rule: stmt.cases) (auto simp: change_defs split: if_splits)
  then show ?thesis
    using assms(2) stmt_user_exists [OF assms(1)] stmt_post_exists [OF assms(1)]
    unfolding fk_likes_def by blast
qed

lemma stmt_fk_follows:
  assumes "stmt d d'" and "fk_follows d"
  shows "fk_follows d'"
proof -
  have "\<forall>f\<in>set (follows d'). f \<in> set (follows d)
          \<or> (user_exists d (f_follower_id f) \<and> user_exists d (f_following_id f))"
    using assms(1) by (cases rule: stmt.cases) (auto simp: change_defs split: if_splits)
  then show ?thesis
    using assms(2) stmt_user_exists [OF assms(1)]
    unfolding fk_follows_def by blast
qed

lemma stmt_fk_notifications:
  assumes "stmt d d'" and "fk_notifications d"
  shows "fk_notifications d'"
proof -
  have "\<forall>n\<in>set (notifications d').
          (\<exists>m\<in>set (notifications d). n_user_id n = n_user_id m
              \<and> n_source_user_id n = n_source_user_id m \<and> n_post_id n = n_post_id m)
          \<or> (user_exists d (n_user_id n) \<and> user_exists d (n_source_user_id n)
              \<and> post_ref_exists d (n_post_id n))"
    using assms(1) by (cases rule: stmt.cases) (auto simp: change_defs split: if_splits)
  then show ?thesis
    using assms(2) stmt_user_exists [OF assms(1)] stmt_post_ref_exists [OF assms(1)]
    unfolding fk_notifications_def by metis
qed

lemma stmt_db_inv:
  assumes "stmt d d'" and "db_inv d"
  shows "db_inv d'"
  unfolding db_inv_def
proof (intro conjI)
  note s = assms(1)
  note i = assms(2) [unfolded db_inv_def]
  show "pk_users d'" using s i by (blast intro: stmt_pk_users)
  show "pk_posts d'" using s i by (blast intro: stmt_pk_posts)
  show "pk_comments d'" using s i by (blast intro: stmt_pk_comments)
  show "pk_likes d'" using s i by (blast intro: stmt_pk_likes)
  show "pk_follows d'" using s i by (blast intro: stmt_pk_follows)
  show "pk_notifications d'" using s i by (blast intro: stmt_pk_notifications)
  show "uq_users d'" using s i by (blast intro: stmt_uq_users)
  show "uq_likes d'" using s i stmt_uq [of d d'] by blast
  show "uq_follows d'" using s i stmt_uq [of d d'] by blast
  show "fk_posts d'" using s i by (blast intro: stmt_fk_posts)
  show "fk_comments d'" using s i by (blast intro: stmt_fk_comments)
  show "fk_likes d'" using s i by (blast intro: stmt_fk_likes)
  show "fk_follows d'" using s i by (blast intro: stmt_fk_follows)
  show "fk_notifications d'" using s i by (blast intro: stmt_fk_notifications)
qed

lemma reachable_db_inv: "reachable d \<Longrightarrow> db_inv d"
  using empty_db_inv stmt_db_inv by (rule reachable_invariant [of db_inv])

section \<open>The example database is reachable\<close>

lemma reachable_app: "reachable d \<Longrightarrow> snd (app e d req) = d' \<Longrightarrow> reachable d'"
  using reachable_step by blast

lemma auth_at:
  "authenticateToken (env0\<lparr>now := t\<rparr>) auth = authenticateToken env0 auth"
  by (simp add: authenticateToken_def split: option.splits)

lemma db0_reachable: "reachable db0"
proof -
  let ?a = "Some ''Bearer jwt.alice@example.com''"
  let ?b = "Some ''Bearer jwt.bob@example.com''"
  let ?u1 = "\<lparr>u_id = 1, u_username = ''alice'', u_email = ''alice@example.com'',
              u_password_hash = ''$2a$10$wonderland'', u_is_admin = False, u_created_at = 1\<rparr>"
  let ?u2 = "\<lparr>u_id = 2, u_username = ''bob'', u_email = ''bob@example.com'',
              u_password_hash = ''$2a$10$builder'', u_is_admin = False, u_created_at = 2\<rparr>"
  let ?u3 = "\<lparr>u_id = 3, u_username = ''root'', u_email = ''admin@social.com'',
              u_password_hash = ''$2a$10$toor'', u_is_admin = True, u_created_at = 3\<rparr>"
  let ?p1 = "\<lparr>p_id = 1, p_user_id = 1, p_content = ''hello'', p_created_at = 10\<rparr>"
  let ?p2 = "\<lparr>p_id = 2, p_user_id = 2, p_content = ''world'', p_created_at = 20\<rparr>"
  let ?d1 = "empty_db\<lparr>users := [?u1], next_user_id := 2\<rparr>"
  let ?d2 = "empty_db\<lparr>users := [?u1, ?u2], next_user_id := 3\<rparr>"
  let ?d3 = "empty_db\<lparr>users := [?u1, ?u2, ?u3], next_user_id := 4\<rparr>"
  let ?d4 = "?d3\<lparr>posts := [?p1], next_post_id := 2\<rparr>"
  let ?d5 = "?d3\<lparr>posts := [?p1, ?p2], next_post_id := 3\<rparr>"
  let ?d6 = "?d5\<lparr>follows := [\<lparr>f_id = 1, f_follower_id = 1, f_following_id = 2,
                             f_created_at = 30\<rparr>], next_follow_id := 2,
                notifications := [\<lparr>n_id = 1, n_user_id = 2, n_type = ''follow'',
                   n_source_user_id = 1, n_post_id = None, n_is_read = False,
                   n_created_at = 30\<rparr>], next_notification_id := 2\<rparr>"
  have "snd (app (env0\<lparr>now := 1\<rparr>) empty_db
          (PostRegister (Some ''alice'') (Some ''alice@example.com'') (Some ''wonderland''))) = ?d1"
    by (simp add: register_handler_def Let_def truthy_def insert_user_def first_row_def
          endsWith_def empty_db_def env0_def)
  with reachable_init have r1: "reachable ?d1"
    by (rule reachable_app)
  have "snd (app (env0\<lparr>now := 2\<rparr>) ?d1
          (PostRegister (Some ''bob'') (Some ''bob@example.com'') (Some ''builder''))) = ?d2"
    by (simp add: register_handler_def Let_def truthy_def insert_user_def first_row_def
          endsWith_def empty_db_def env0_def)
  with r1 have r2: "reachable ?d2"
    by (rule reachable_app)
  have "snd (app (env0\<lparr>now := 3\<rparr>) ?d2
          (PostRegister (Some ''root'') (Some ''admin@social.com'') (Some ''toor''))) = ?d3"
    by (simp add: register_handler_def Let_def truthy_def insert_user_def first_row_def
          endsWith_def empty_db_def env0_def)
  with r2 have r3: "reachable ?d3"
    by (rule reachable_app)
  have "snd (app (env0\<lparr>now := 10\<rparr>) ?d3 (PostPosts ?a (Some ''hello''))) = ?d4"
    by (simp add: with_auth_def auth_at auth_alice create_post_handler_def Let_def truthy_def
          insert_post_def user_exists_def empty_db_def alice_def)
  with r3 have r4: "reachable ?d4"
    by (rule reachable_app)
  have "snd (app (env0\<lparr>now := 20\<rparr>) ?d4 (PostPosts ?b (Some ''world''))) = ?d5"
    by (simp add: with_auth_def auth_at auth_bob create_post_handler_def Let_def truthy_def
          insert_post_def user_exists_def empty_db_def bob_def)
  with r4 have r5: "reachable ?d5"
    by (rule reachable_app)
  have "snd (app (env0\<lparr>now := 30\<rparr>) ?d5 (PostFollow ?a 2)) = ?d6"
    by (simp add: with_auth_def auth_at auth_alice follow_handler_def Let_def
          insert_follow_def insert_notification_def user_exists_def post_ref_exists_def
          empty_db_def alice_def)
  with r5 have r6: "reachable ?d6"
    by (rule reachable_app)
  have "snd (app (env0\<lparr>now := 40\<rparr>) ?d6 (PostLike ?a 2)) = db0"
    by (simp add: with_auth_def auth_at auth_alice like_handler_def Let_def
          insert_like_def insert_notification_def user_exists_def post_exists_def
          post_ref_exists_def first_row_def empty_db_def alice_def db0_def)
  with r6 show ?thesis
    by (rule reachable_app)
qed

lemma db0_inv: "db_inv db0"
  using db0_reachable by (rule reachable_db_inv)

text \<open>
  The side conditions under which the handlers are studied below hold in every
  reachable database.
\<close>

lemma reachable_side_conditions:
  assumes "reachable d"
  shows "distinct (map u_id (users d))" and "distinct (map u_email (users d))"
    and "distinct (map p_id (posts d))" and "distinct (map n_id (notifications d))"
    and "fk_posts d"
  using reachable_db_inv [OF assms]
  by (simp_all add: db_inv_def pk_users_def uq_users_def pk_posts_def pk_notifications_def)

section \<open>Marking a notification as read\<close>

lemma map_read_list_update:
  assumes "distinct (map n_id ns)" and "i < length ns"
  shows "map (\<lambda>m. if n_id m = n_id (ns ! i) then m\<lparr>n_is_read := True\<rparr> else m) ns
         = ns[i := (ns ! i)\<lparr>n_is_read := True\<rparr>]"
proof (rule nth_equalityI)
  show "length (map (\<lambda>m. if n_id m = n_id (ns ! i) then m\<lparr>n_is_read := True\<rparr> else m) ns)
        = length (ns[i := (ns ! i)\<lparr>n_is_read := True\<rparr>])"
    by simp
next
  fix j
  assume "j < length (map (\<lambda>m. if n_id m = n_id (ns ! i) then m\<lparr>n_is_read := True\<rparr> else m) ns)"
  then have j: "j < length ns" by simp
  have "n_id (ns ! j) = n_id (ns ! i) \<longleftrightarrow> j = i"
    using assms j nth_eq_iff_index_eq [of "map n_id ns" j i] by simp
  then show "map (\<lambda>m. if n_id m = n_id (ns ! i) then m\<lparr>n_is_read := True\<rparr> else m) ns ! j
             = ns[i := (ns ! i)\<lparr>n_is_read := True\<rparr>] ! j"
    using j assms(2) by (auto simp: nth_list_update)
qed

text \<open>
  Claim C10. PATCH /api/notifications/:notificationId/read, for the user of a valid
  token: when no notification with the given id belongs to that user the response is
  404 and the database is returned as it was; when one does, the response is the
  success message and the database differs from the old one in the notifications
  table only, and there only at the position of that notification, which is the old
  row with \<open>is_read\<close> set.
\<close>

theorem mark_read_frame:
  assumes auth: "authenticateToken e auth = Inr user"
    and pk: "distinct (map n_id (notifications d))"
  shows "(\<not> (\<exists>n\<in>set (notifications d). n_id n = nid \<and> n_user_id n = userId user) \<longrightarrow>
            app e d (PatchRead auth nid) = (json 404 (ErrorBody ''Notification not found''), d))
       \<and> (\<forall>n\<in>set (notifications d). n_id n = nid \<and> n_user_id n = userId user \<longrightarrow>
            (\<exists>i<length (notifications d). notifications d ! i = n \<and>
               app e d (PatchRead auth nid) =
                 (json 200 (MessageBody ''Notification marked as read''),
                  d\<lparr>notifications := (notifications d)[i := n\<lparr>n_is_read := True\<rparr>]\<rparr>)))"
proof (intro conjI impI ballI)
  assume "\<not> (\<exists>n\<in>set (notifications d). n_id n = nid \<and> n_user_id n = userId user)"
  then have "filter (\<lambda>n. n_id n = nid \<and> n_user_id n = userId user) (notifications d) = []"
    by (simp add: filter_empty_conv)
  then show "app e d (PatchRead auth nid) = (json 404 (ErrorBody ''Notification not found''), d)"
    using auth by (simp add: with_auth_def mark_read_handler_def)
next
  fix n
  assume n: "n \<in> set (notifications d)" and own: "n_id n = nid \<and> n_user_id n = userId user"
  then obtain i where i: "i < length (notifications d)" "notifications d ! i = n"
    by (auto simp: in_set_conv_nth)
  have "filter (\<lambda>n. n_id n = nid \<and> n_user_id n = userId user) (notifications d) \<noteq> []"
    using n own by (auto simp: filter_empty_conv)
  then have "app e d (PatchRead auth nid) =
      (json 200 (MessageBody ''Notification marked as read''), update_notification_read d nid)"
    using auth by (simp add: with_auth_def mark_read_handler_def)
  moreover have "update_notification_read d nid =
      d\<lparr>notifications := (notifications d)[i := n\<lparr>n_is_read := True\<rparr>]\<rparr>"
    using map_read_list_update [OF pk i(1)] i(2) own
    by (simp add: update_notification_read_def)
  ultimately show "\<exists>i<length (notifications d). notifications d ! i = n \<and>
      app e d (PatchRead auth nid) =
        (json 200 (MessageBody ''Notification marked as read''),
         d\<lparr>notifications := (notifications d)[i := n\<lparr>n_is_read := True\<rparr>]\<rparr>)"
    using i by (intro exI [of _ i]) simp
qed

theorem mark_read_frame_witness:
  "\<exists>i<length (notifications db0).
     notifications db0 ! i = hd (notifications db0) \<and>
     app env0 db0 (PatchRead (Some ''Bearer jwt.bob@example.com'') 1) =
       (json 200 (MessageBody ''Notification marked as read''),
        db0\<lparr>notifications :=
          (notifications db0)[i := (hd (notifications db0))\<lparr>n_is_read := True\<rparr>]\<rparr>)"
proof -
  have pk: "distinct (map n_id (notifications db0))"
    by (simp add: db0_def)
  have n: "hd (notifications db0) \<in> set (notifications db0)"
    and own: "n_id (hd (notifications db0)) = 1 \<and> n_user_id (hd (notifications db0)) = userId bob"
    by (simp_all add: db0_def bob_def)
  from mark_read_frame [OF auth_bob pk, of 1]
  have "\<forall>n\<in>set (notifications db0). n_id n = 1 \<and> n_user_id n = userId bob \<longrightarrow>
            (\<exists>i<length (notifications db0). notifications db0 ! i = n \<and>
               app env0 db0 (PatchRead (Some ''Bearer jwt.bob@example.com'') 1) =
                 (json 200 (MessageBody ''Notification marked as read''),
                  db0\<lparr>notifications := (notifications db0)[i := n\<lparr>n_is_read := True\<rparr>]\<rparr>))"
    by (rule conjunct2)
  from this [rule_format, OF n own] show ?thesis .
qed

section \<open>Uniqueness of likes and follows\<close>

lemma distinct_map_count:
  "distinct (map f xs) \<longleftrightarrow> (\<forall>k. length (filter (\<lambda>x. f x = k) xs) \<le> 1)"
proof (induction xs)
  case Nil
  show ?case by simp
next
  case (Cons x xs)
  show ?case
  proof
    assume d: "distinct (map f (x # xs))"
    then have "\<forall>k. length (filter (\<lambda>x. f x = k) xs) \<le> 1" and nx: "f x \<notin> f ` set xs"
      using Cons.IH by simp_all
    moreover have "filter (\<lambda>y. f y = f x) xs = []"
      using nx by (force simp: filter_empty_conv image_iff)
    ultimately show "\<forall>k. length (filter (\<lambda>y. f y = k) (x # xs)) \<le> 1"
      by simp
  next
    assume c: "\<forall>k. length (filter (\<lambda>y. f y = k) (x # xs)) \<le> 1"
    have "length (filter (\<lambda>y. f y = k) xs) \<le> 1" for k
      using c [rule_format, of k] by (simp split: if_splits)
    then have "distinct (map f xs)"
      using Cons.IH by simp
    moreover have "filter (\<lambda>y. f y = f x) xs = []"
      using c [rule_format, of "f x"] by simp
    then have "f x \<notin> f ` set xs"
      by (auto simp: filter_empty_conv)
    ultimately show "distinct (map f (x # xs))"
      by simp
  qed
qed

lemma uq_likes_count:
  "uq_likes d \<longleftrightarrow>
     (\<forall>u p. length (filter (\<lambda>l. l_user_id l = u \<and> l_post_id l = p) (likes d)) \<le> 1)"
  unfolding uq_likes_def like_pairs_def distinct_map_count by simp

lemma uq_follows_count:
  "uq_follows d \<longleftrightarrow>
     (\<forall>u v. length (filter (\<lambda>f. f_follower_id f = u \<and> f_following_id f = v) (follows d)) \<le> 1)"
  unfolding uq_follows_def follow_pairs_def distinct_map_count by simp

text \<open>
  Claim C5. In every database reachable from the empty one by requests to the
  application, no two rows of likes have the same (user_id, post_id) and no two rows of
  follows have the same (follower_id, following_id); and any request, served in any
  database with these two properties, leaves a database with them.
\<close>

theorem likes_follows_unique:
  "(reachable d \<longrightarrow> uq_likes d \<and> uq_follows d)
   \<and> (uq_likes d \<and> uq_follows d \<longrightarrow>
        uq_likes (snd (app e d req)) \<and> uq_follows (snd (app e d req)))"
proof (intro conjI impI)
  have init: "uq_likes empty_db \<and> uq_follows empty_db"
    by (simp add: uq_likes_def uq_follows_def like_pairs_def follow_pairs_def empty_db_def)
  assume r: "reachable d"
  have "uq_likes d \<and> uq_follows d"
    using init stmt_uq r by (rule reachable_invariant [of "\<lambda>d. uq_likes d \<and> uq_follows d"])
  then show "uq_likes d" and "uq_follows d" by simp_all
next
  assume u: "uq_likes d \<and> uq_follows d"
  have "uq_likes (snd (app e d req)) \<and> uq_follows (snd (app e d req))"
    using stmt_uq u by (rule app_preserves [of "\<lambda>d. uq_likes d \<and> uq_follows d"])
  then show "uq_likes (snd (app e d req))" and "uq_follows (snd (app e d req))" by simp_all
qed

theorem likes_follows_unique_witness:
  "uq_likes (snd (app env0 empty_db (PostRegister (Some ''carol'') (Some ''carol@example.com'')
                                      (Some ''secret''))))
   \<and> uq_likes (snd (app env0 db0 (PostLike (Some ''Bearer jwt.bob@example.com'') 1)))
   \<and> uq_follows (snd (app env0 db0 (PostLike (Some ''Bearer jwt.bob@example.com'') 1)))"
proof -
  have r: "reachable (snd (app env0 empty_db (PostRegister (Some ''carol'')
                            (Some ''carol@example.com'') (Some ''secret''))))"
    by (rule reachable_step [OF reachable_init])
  have u: "uq_likes db0 \<and> uq_follows db0"
    by (simp add: uq_likes_def uq_follows_def like_pairs_def follow_pairs_def db0_def)
  note a = likes_follows_unique [THEN conjunct1, rule_format, OF r]
  note b = likes_follows_unique
    [of db0 env0 "PostLike (Some ''Bearer jwt.bob@example.com'') 1", THEN conjunct2,
     rule_format, OF u]
  show ?thesis by (rule conjI [OF a [THEN conjunct1] b])
qed

section \<open>Liking and unliking a post\<close>

lemma like_pairs_filter:
  "(u, p) \<in> set (like_pairs d) \<longleftrightarrow>
     filter (\<lambda>l. l_user_id l = u \<and> l_post_id l = p) (likes d) \<noteq> []"
  by (auto simp: like_pairs_def filter_empty_conv)

lemma first_row_None: "first_row rows = None \<longleftrightarrow> rows = []"
  by (cases rows) (simp_all add: first_row_def)

lemma first_row_filter_Some:
  "first_row (filter P xs) = Some x \<Longrightarrow> x \<in> set xs \<and> P x"
  by (induction xs) (auto simp: first_row_def split: if_splits)

lemma first_row_filter_distinct:
  assumes "distinct (map key xs)" and "x \<in> set xs"
  shows "first_row (filter (\<lambda>y. key y = key x) xs) = Some x"
  using assms
proof (induction xs)
  case Nil
  then show ?case by simp
next
  case (Cons a xs)
  show ?case
  proof (cases "a = x")
    case True
    then show ?thesis by (simp add: first_row_def)
  next
    case False
    with Cons.prems have x: "x \<in> set xs" and "key a \<notin> key ` set xs"
      by simp_all
    then have "key a \<noteq> key x" by force
    with Cons x show ?thesis by simp
  qed
qed

lemma post_exists_first_row:
  "post_exists d p \<longleftrightarrow> first_row (filter (\<lambda>q. p_id q = p) (posts d)) \<noteq> None"
  by (auto simp: post_exists_def first_row_None filter_empty_conv)

text \<open>The like row and the notification row that the handler inserts.\<close>

lemma like_present:
  assumes "(userId user, p) \<in> set (like_pairs d)"
  shows "like_handler e d user p = (json 200 (LikedBody False), delete_like d (userId user) p)"
  using assms by (simp add: like_pairs_filter like_handler_def Let_def)

lemma like_absent_insert:
  assumes "(userId user, p) \<notin> set (like_pairs d)"
    and "user_exists d (userId user)" and "post_exists d p"
  shows "insert_like d (userId user) p t =
           Inr (next_like_id d,
                d\<lparr>likes := likes d @ [\<lparr>l_id = next_like_id d, l_user_id = userId user,
                       l_post_id = p, l_created_at = t\<rparr>],
                  next_like_id := next_like_id d + 1\<rparr>)"
  using assms by (simp add: insert_like_def like_pairs_def)

lemma like_absent_likes:
  assumes "(userId user, p) \<notin> set (like_pairs d)"
    and "user_exists d (userId user)" and "post_exists d p"
  shows "likes (snd (like_handler e d user p)) =
           likes d @ [\<lparr>l_id = next_like_id d, l_user_id = userId user, l_post_id = p,
                       l_created_at = now e\<rparr>]
         \<and> users (snd (like_handler e d user p)) = users d
         \<and> posts (snd (like_handler e d user p)) = posts d"
  using assms(1) like_absent_insert [OF assms]
  by (auto simp: like_handler_def Let_def like_pairs_filter insert_notification_def
           split: option.splits sum.splits if_splits)

lemma like_absent:
  assumes absent: "(userId user, p) \<notin> set (like_pairs d)"
    and usr: "user_exists d (userId user)"
    and post: "first_row (filter (\<lambda>q. p_id q = p) (posts d)) = Some post"
    and owner: "user_exists d (p_user_id post)"
  shows "like_handler e d user p =
           (json 200 (LikedBody True),
            if p_user_id post \<noteq> userId user
            then d\<lparr>likes := likes d @ [\<lparr>l_id = next_like_id d, l_user_id = userId user,
                          l_post_id = p, l_created_at = now e\<rparr>],
                   next_like_id := next_like_id d + 1,
                   notifications := notifications d @ [\<lparr>n_id = next_notification_id d,
                          n_user_id = p_user_id post, n_type = ''like'',
                          n_source_user_id = userId user, n_post_id = Some p,
                          n_is_read = False, n_created_at = now e\<rparr>],
                   next_notification_id := next_notification_id d + 1\<rparr>
            else d\<lparr>likes := likes d @ [\<lparr>l_id = next_like_id d, l_user_id = userId user,
                          l_post_id = p, l_created_at = now e\<rparr>],
                   next_like_id := next_like_id d + 1\<rparr>)"
proof -
  have pe: "post_exists d p"
    using post by (simp add: post_exists_first_row)
  show ?thesis
    using absent usr post owner pe like_absent_insert [OF absent usr pe]
    by (simp add: like_handler_def Let_def like_pairs_filter insert_notification_def
          user_exists_def post_exists_def post_ref_exists_def)
qed

lemma app_like:
  "authenticateToken e auth = Inr user \<Longrightarrow> app e d (PostLike auth p) = like_handler e d user p"
  by (simp add: with_auth_def)

text \<open>
  Claim C2, as amended. For the user of a valid token who is in the users table, and a
  post id \<open>p\<close> of an existing post, in a database whose posts all have an existing
  author: when likes has no row (u, p), POST /api/posts/:postId/like answers 200 with
  \<open>{liked: true}\<close> and appends exactly one row (u, p) to likes; when it has such a row,
  the request answers 200 with \<open>{liked: false}\<close> and removes the rows (u, p) from likes.
\<close>

theorem like_toggle:
  assumes auth: "authenticateToken e auth = Inr user"
    and usr: "user_exists d (userId user)"
    and post: "post_exists d p"
    and fk: "fk_posts d"
  shows "((userId user, p) \<notin> set (like_pairs d) \<longrightarrow>
            (\<exists>d'. app e d (PostLike auth p) = (json 200 (LikedBody True), d')
               \<and> likes d' = likes d @ [\<lparr>l_id = next_like_id d, l_user_id = userId user,
                                         l_post_id = p, l_created_at = now e\<rparr>]))
       \<and> ((userId user, p) \<in> set (like_pairs d) \<longrightarrow>
            (\<exists>d'. app e d (PostLike auth p) = (json 200 (LikedBody False), d')
               \<and> likes d' = filter (\<lambda>l. \<not> (l_user_id l = userId user \<and> l_post_id l = p))
                               (likes d)))"
proof (intro conjI impI)
  assume absent: "(userId user, p) \<notin> set (like_pairs d)"
  obtain q where q: "first_row (filter (\<lambda>q. p_id q = p) (posts d)) = Some q"
    using post by (auto simp: post_exists_first_row)
  then have "q \<in> set (posts d)"
    by (auto dest: first_row_filter_Some)
  then have owner: "user_exists d (p_user_id q)"
    using fk by (simp add: fk_posts_def)
  show "\<exists>d'. app e d (PostLike auth p) = (json 200 (LikedBody True), d')
          \<and> likes d' = likes d @ [\<lparr>l_id = next_like_id d, l_user_id = userId user,
                                    l_post_id = p, l_created_at = now e\<rparr>]"
    unfolding app_like [OF auth] like_absent [OF absent usr q owner]
    by (cases "p_user_id q \<noteq> userId user") simp_all
next
  assume present: "(userId user, p) \<in> set (like_pairs d)"
  show "\<exists>d'. app e d (PostLike auth p) = (json 200 (LikedBody False), d')
          \<and> likes d' = filter (\<lambda>l. \<not> (l_user_id l = userId user \<and> l_post_id l = p)) (likes d)"
    unfolding app_like [OF auth] like_present [OF present]
    by (simp add: delete_like_def)
qed

theorem like_toggle_witness:
  "(\<exists>d'. app env0 db0 (PostLike (Some ''Bearer jwt.bob@example.com'') 1) =
            (json 200 (LikedBody True), d')
        \<and> likes d' = likes db0 @ [\<lparr>l_id = next_like_id db0, l_user_id = userId bob,
                                    l_post_id = 1, l_created_at = now env0\<rparr>])
   \<and> (\<exists>d'. app env0 db0 (PostLike (Some ''Bearer jwt.alice@example.com'') 2) =
            (json 200 (LikedBody False), d')
        \<and> likes d' = filter (\<lambda>l. \<not> (l_user_id l = userId alice \<and> l_post_id l = 2))
                        (likes db0))"
proof -
  have bob: "user_exists db0 (userId bob)" and alice: "user_exists db0 (userId alice)"
    by (simp_all add: user_exists_def db0_def bob_def alice_def)
  have p1: "post_exists db0 1" and p2: "post_exists db0 2"
    by (simp_all add: post_exists_def db0_def)
  have fk: "fk_posts db0"
    by (simp add: fk_posts_def user_exists_def db0_def)
  have absent: "(userId bob, 1) \<notin> set (like_pairs db0)"
    and present: "(userId alice, 2) \<in> set (like_pairs db0)"
    by (simp_all add: like_pairs_def db0_def bob_def alice_def)
  note a = like_toggle [OF auth_bob bob p1 fk, THEN conjunct1, rule_format, OF absent]
  note b = like_toggle [OF auth_alice alice p2 fk, THEN conjunct2, rule_format, OF present]
  show ?thesis by (rule conjI [OF a b])
qed

text \<open>
  The claim as stated fails for a post id that no post has: alice, holding a valid
  token and with no row (alice, 7) in likes, gets the 500 response, and no row is
  inserted.
\<close>

theorem like_toggle_counterexample:
  "authenticateToken env0 (Some ''Bearer jwt.alice@example.com'') = Inr alice
   \<and> user_exists db0 (userId alice)
   \<and> (userId alice, 7) \<notin> set (like_pairs db0)
   \<and> app env0 db0 (PostLike (Some ''Bearer jwt.alice@example.com'') 7) = (internal_error, db0)"
proof -
  have "user_exists db0 (userId alice)" "(userId alice, 7) \<notin> set (like_pairs db0)"
    by (simp_all add: user_exists_def like_pairs_def db0_def alice_def)
  moreover have "like_handler env0 db0 alice 7 = (internal_error, db0)"
    by (simp add: like_handler_def Let_def insert_like_def user_exists_def post_exists_def
          db0_def alice_def)
  ultimately show ?thesis
    by (simp add: auth_alice app_like [OF auth_alice] del: app.simps)
qed

lemma filter_like_absent:
  assumes "(u, p) \<notin> set (like_pairs d)"
  shows "filter (\<lambda>l. \<not> (l_user_id l = u \<and> l_post_id l = p)) (likes d) = likes d"
  using assms by (auto simp: like_pairs_def filter_id_conv image_iff)

lemma like_pairs_delete:
  "set (like_pairs (delete_like d u p)) = set (like_pairs d) - {(u, p)}"
  by (auto simp: like_pairs_def delete_like_def)

text \<open>
  Claim C7, as amended. Two successive requests POST /api/posts/:postId/like of the same
  user (a row of users, with a token valid at both requests) on an existing post leave
  the set of (user_id, post_id) pairs of likes as it was before the first. When the
  pair was not in likes before, the rows of likes are exactly as they were; when it
  was, its rows are gone and a new row with the next id and the time of the second
  request stands at the end of the table.
\<close>

theorem like_twice:
  assumes auth1: "authenticateToken e1 auth = Inr user"
    and auth2: "authenticateToken e2 auth = Inr user"
    and usr: "user_exists d (userId user)"
    and post: "post_exists d p"
  shows "set (like_pairs (snd (app e2 (snd (app e1 d (PostLike auth p))) (PostLike auth p))))
           = set (like_pairs d)
       \<and> ((userId user, p) \<notin> set (like_pairs d) \<longrightarrow>
            likes (snd (app e2 (snd (app e1 d (PostLike auth p))) (PostLike auth p))) = likes d)
       \<and> ((userId user, p) \<in> set (like_pairs d) \<longrightarrow>
            likes (snd (app e2 (snd (app e1 d (PostLike auth p))) (PostLike auth p))) =
              filter (\<lambda>l. \<not> (l_user_id l = userId user \<and> l_post_id l = p)) (likes d)
              @ [\<lparr>l_id = next_like_id d, l_user_id = userId user, l_post_id = p,
                  l_created_at = now e2\<rparr>])"
proof (cases "(userId user, p) \<in> set (like_pairs d)")
  case True
  let ?d1 = "delete_like d (userId user) p"
  have first: "snd (app e1 d (PostLike auth p)) = ?d1"
    by (simp add: app_like [OF auth1] like_present [OF True] del: app.simps)
  have absent: "(userId user, p) \<notin> set (like_pairs ?d1)"
    by (simp add: like_pairs_delete)
  have usr1: "user_exists ?d1 (userId user)" and post1: "post_exists ?d1 p"
    using usr post by (simp_all add: user_exists_def post_exists_def delete_like_def)
  have second: "likes (snd (app e2 ?d1 (PostLike auth p))) =
      likes ?d1 @ [\<lparr>l_id = next_like_id ?d1, l_user_id = userId user, l_post_id = p,
                    l_created_at = now e2\<rparr>]"
    using like_absent_likes [OF absent usr1 post1, of e2]
    by (simp add: app_like [OF auth2] del: app.simps)
  have rows: "likes (snd (app e2 (snd (app e1 d (PostLike auth p))) (PostLike auth p))) =
      filter (\<lambda>l. \<not> (l_user_id l = userId user \<and> l_post_id l = p)) (likes d)
      @ [\<lparr>l_id = next_like_id d, l_user_id = userId user, l_post_id = p,
          l_created_at = now e2\<rparr>]"
    unfolding first second by (simp add: delete_like_def)
  have "set (like_pairs (snd (app e2 (snd (app e1 d (PostLike auth p))) (PostLike auth p))))
          = insert (userId user, p) (set (like_pairs d) - {(userId user, p)})"
    unfolding like_pairs_def rows by (auto simp: image_iff)
  with True rows show ?thesis
    by (simp add: insert_absorb)
next
  case False
  let ?row = "\<lparr>l_id = next_like_id d, l_user_id = userId user, l_post_id = p,
                l_created_at = now e1\<rparr>"
  let ?d1 = "snd (app e1 d (PostLike auth p))"
  have first: "likes ?d1 = likes d @ [?row]"
    using like_absent_likes [OF False usr post, of e1]
    by (simp add: app_like [OF auth1] del: app.simps)
  then have present: "(userId user, p) \<in> set (like_pairs ?d1)"
    by (simp add: like_pairs_def)
  have "likes (snd (app e2 ?d1 (PostLike auth p))) = likes d"
    using first filter_like_absent [OF False]
    by (simp add: app_like [OF auth2] like_present [OF present] delete_like_def
          del: app.simps)
  with False show ?thesis
    by (simp add: like_pairs_def)
qed

theorem like_twice_witness:
  "set (like_pairs (snd (app env0 (snd (app env0 db0
          (PostLike (Some ''Bearer jwt.bob@example.com'') 1)))
          (PostLike (Some ''Bearer jwt.bob@example.com'') 1))))
     = set (like_pairs db0)"
proof -
  have bob: "user_exists db0 (userId bob)"
    by (simp add: user_exists_def db0_def bob_def)
  have p1: "post_exists db0 1"
    by (simp add: post_exists_def db0_def)
  show ?thesis
    by (rule like_twice [OF auth_bob auth_bob bob p1, THEN conjunct1])
qed

text \<open>
  The claim as stated fails when the user already likes the post: alice likes post 2
  in row 1 of likes; after her two requests the table holds row 2 instead, created at
  the time of the second request.
\<close>

theorem like_twice_counterexample:
  "authenticateToken env0 (Some ''Bearer jwt.alice@example.com'') = Inr alice
   \<and> post_exists db0 2
   \<and> likes db0 = [\<lparr>l_id = 1, l_user_id = 1, l_post_id = 2, l_created_at = 40\<rparr>]
   \<and> likes (snd (app env0 (snd (app env0 db0
          (PostLike (Some ''Bearer jwt.alice@example.com'') 2)))
          (PostLike (Some ''Bearer jwt.alice@example.com'') 2)))
       = [\<lparr>l_id = 2, l_user_id = 1, l_post_id = 2, l_created_at = 100\<rparr>]"
proof -
  have "post_exists db0 2" "likes db0 = [\<lparr>l_id = 1, l_user_id = 1, l_post_id = 2, l_created_at = 40\<rparr>]"
    by (simp_all add: post_exists_def db0_def)
  moreover have "like_handler env0 db0 alice 2 = (json 200 (LikedBody False), delete_like db0 1 2)"
    by (simp add: like_handler_def Let_def db0_def alice_def)
  moreover have "likes (snd (like_handler env0 (delete_like db0 1 2) alice 2))
      = [\<lparr>l_id = 2, l_user_id = 1, l_post_id = 2, l_created_at = 100\<rparr>]"
    by (simp add: like_handler_def Let_def insert_like_def insert_notification_def
          user_exists_def post_exists_def post_ref_exists_def first_row_def delete_like_def
          db0_def alice_def env0_def)
  ultimately show ?thesis
    by (simp add: auth_alice app_like [OF auth_alice] del: app.simps)
qed

section \<open>Following and unfollowing a user\<close>

lemma follow_pairs_filter:
  "(u, v) \<in> set (follow_pairs d) \<longleftrightarrow>
     filter (\<lambda>f. f_follower_id f = u \<and> f_following_id f = v) (follows d) \<noteq> []"
  by (auto simp: follow_pairs_def filter_empty_conv)

lemma user_exists_filter:
  "user_exists d i \<longleftrightarrow> filter (\<lambda>u. u_id u = i) (users d) \<noteq> []"
  by (auto simp: user_exists_def filter_empty_conv)

lemma app_follow:
  "authenticateToken e auth = Inr user \<Longrightarrow>
     app e d (PostFollow auth t) = follow_handler e d user t"
  by (simp add: with_auth_def)

lemma follow_self:
  "follow_handler e d user (userId user) = (json 400 (ErrorBody ''Cannot follow yourself''), d)"
  by (simp add: follow_handler_def)

lemma follow_unknown:
  assumes "t \<noteq> userId user" and "\<not> user_exists d t"
  shows "follow_handler e d user t = (json 404 (ErrorBody ''User not found''), d)"
  using assms by (simp add: follow_handler_def user_exists_filter)

lemma follow_present:
  assumes "t \<noteq> userId user" and "user_exists d t"
    and "(userId user, t) \<in> set (follow_pairs d)"
  shows "follow_handler e d user t =
           (json 200 (FollowingBody False), delete_follow d (userId user) t)"
  using assms by (simp add: follow_handler_def Let_def user_exists_filter follow_pairs_filter)

lemma follow_absent:
  assumes "t \<noteq> userId user" and "user_exists d t"
    and "(userId user, t) \<notin> set (follow_pairs d)"
    and "user_exists d (userId user)"
  shows "follow_handler e d user t =
           (json 200 (FollowingBody True),
            d\<lparr>follows := follows d @ [\<lparr>f_id = next_follow_id d, f_follower_id = userId user,
                   f_following_id = t, f_created_at = now e\<rparr>],
              next_follow_id := next_follow_id d + 1,
              notifications := notifications d @ [\<lparr>n_id = next_notification_id d,
                   n_user_id = t, n_type = ''follow'', n_source_user_id = userId user,
                   n_post_id = None, n_is_read = False, n_created_at = now e\<rparr>],
              next_notification_id := next_notification_id d + 1\<rparr>)"
proof -
  have "insert_follow d (userId user) t (now e) =
      Inr (next_follow_id d,
           d\<lparr>follows := follows d @ [\<lparr>f_id = next_follow_id d, f_follower_id = userId user,
                  f_following_id = t, f_created_at = now e\<rparr>],
             next_follow_id := next_follow_id d + 1\<rparr>)"
    using assms by (simp add: insert_follow_def follow_pairs_def)
  then show ?thesis
    using assms
    by (simp add: follow_handler_def Let_def user_exists_filter follow_pairs_filter
          insert_notification_def user_exists_def post_ref_exists_def)
qed

text \<open>
  Claim C4. POST /api/users/:userId/follow, for the user \<open>u\<close> of a valid token who is in
  the users table: a target equal to \<open>u\<close> gets 400 and the database is unchanged; a
  target that is no user's id gets 404 and the database is unchanged; otherwise, when
  follows has no row (u, target) one such row is appended and the answer is
  \<open>{following: true}\<close>, and when it has one, the rows (u, target) are deleted and the
  answer is \<open>{following: false}\<close>.
\<close>

theorem follow_toggle:
  assumes auth: "authenticateToken e auth = Inr user"
    and usr: "user_exists d (userId user)"
  shows "(t = userId user \<longrightarrow>
            app e d (PostFollow auth t) = (json 400 (ErrorBody ''Cannot follow yourself''), d))
       \<and> (t \<noteq> userId user \<and> \<not> user_exists d t \<longrightarrow>
            app e d (PostFollow auth t) = (json 404 (ErrorBody ''User not found''), d))
       \<and> (t \<noteq> userId user \<and> user_exists d t \<and> (userId user, t) \<notin> set (follow_pairs d) \<longrightarrow>
            (\<exists>d'. app e d (PostFollow auth t) = (json 200 (FollowingBody True), d')
               \<and> follows d' = follows d @ [\<lparr>f_id = next_follow_id d,
                     f_follower_id = userId user, f_following_id = t,
                     f_created_at = now e\<rparr>]))
       \<and> (t \<noteq> userId user \<and> user_exists d t \<and> (userId user, t) \<in> set (follow_pairs d) \<longrightarrow>
            (\<exists>d'. app e d (PostFollow auth t) = (json 200 (FollowingBody False), d')
               \<and> follows d' =
                   filter (\<lambda>f. \<not> (f_follower_id f = userId user \<and> f_following_id f = t))
                     (follows d)))"
proof (intro conjI impI)
  assume "t = userId user"
  then show "app e d (PostFollow auth t) = (json 400 (ErrorBody ''Cannot follow yourself''), d)"
    by (simp add: app_follow [OF auth] follow_self del: app.simps)
next
  assume "t \<noteq> userId user \<and> \<not> user_exists d t"
  then show "app e d (PostFollow auth t) = (json 404 (ErrorBody ''User not found''), d)"
    by (simp add: app_follow [OF auth] follow_unknown del: app.simps)
next
  assume a: "t \<noteq> userId user \<and> user_exists d t \<and> (userId user, t) \<notin> set (follow_pairs d)"
  then have "follow_handler e d user t =
      (json 200 (FollowingBody True),
       d\<lparr>follows := follows d @ [\<lparr>f_id = next_follow_id d, f_follower_id = userId user,
              f_following_id = t, f_created_at = now e\<rparr>],
         next_follow_id := next_follow_id d + 1,
         notifications := notifications d @ [\<lparr>n_id = next_notification_id d,
              n_user_id = t, n_type = ''follow'', n_source_user_id = userId user,
              n_post_id = None, n_is_read = False, n_created_at = now e\<rparr>],
         next_notification_id := next_notification_id d + 1\<rparr>)"
    using usr by (simp add: follow_absent)
  then show "\<exists>d'. app e d (PostFollow auth t) = (json 200 (FollowingBody True), d')
      \<and> follows d' = follows d @ [\<lparr>f_id = next_follow_id d, f_follower_id = userId user,
            f_following_id = t, f_created_at = now e\<rparr>]"
    by (simp add: app_follow [OF auth] del: app.simps)
next
  assume "t \<noteq> userId user \<and> user_exists d t \<and> (userId user, t) \<in> set (follow_pairs d)"
  then show "\<exists>d'. app e d (PostFollow auth t) = (json 200 (FollowingBody False), d')
      \<and> follows d' = filter (\<lambda>f. \<not> (f_follower_id f = userId user \<and> f_following_id f = t))
                        (follows d)"
    by (simp add: app_follow [OF auth] follow_present delete_follow_def del: app.simps)
qed

theorem follow_toggle_witness:
  "app env0 db0 (PostFollow (Some ''Bearer jwt.bob@example.com'') 2) =
     (json 400 (ErrorBody ''Cannot follow yourself''), db0)
   \<and> app env0 db0 (PostFollow (Some ''Bearer jwt.bob@example.com'') 9) =
     (json 404 (ErrorBody ''User not found''), db0)
   \<and> (\<exists>d'. app env0 db0 (PostFollow (Some ''Bearer jwt.bob@example.com'') 1) =
              (json 200 (FollowingBody True), d')
          \<and> follows d' = follows db0 @ [\<lparr>f_id = next_follow_id db0,
                f_follower_id = userId bob, f_following_id = 1, f_created_at = now env0\<rparr>])
   \<and> (\<exists>d'. app env0 db0 (PostFollow (Some ''Bearer jwt.alice@example.com'') 2) =
              (json 200 (FollowingBody False), d')
          \<and> follows d' =
              filter (\<lambda>f. \<not> (f_follower_id f = userId alice \<and> f_following_id f = 2))
                (follows db0))"
proof -
  have bob: "user_exists db0 (userId bob)" and alice: "user_exists db0 (userId alice)"
    by (simp_all add: user_exists_def db0_def bob_def alice_def)
  have self: "2 = userId bob"
    by (simp add: bob_def)
  have unknown: "9 \<noteq> userId bob \<and> \<not> user_exists db0 9"
    by (simp add: user_exists_def db0_def bob_def)
  have absent: "1 \<noteq> userId bob \<and> user_exists db0 1 \<and> (userId bob, 1) \<notin> set (follow_pairs db0)"
    by (simp add: user_exists_def follow_pairs_def db0_def bob_def)
  have present:
    "2 \<noteq> userId alice \<and> user_exists db0 2 \<and> (userId alice, 2) \<in> set (follow_pairs db0)"
    by (simp add: user_exists_def follow_pairs_def db0_def alice_def)
  note t = follow_toggle [OF auth_bob bob]
  note a = t [of 2, THEN conjunct1, rule_format, OF self]
  note b = t [of 9, THEN conjunct2, THEN conjunct1, rule_format, OF unknown]
  note c = t [of 1, THEN conjunct2, THEN conjunct2, THEN conjunct1, rule_format, OF absent]
  note d = follow_toggle [OF auth_alice alice, of 2, THEN conjunct2, THEN conjunct2,
    THEN conjunct2, rule_format, OF present]
  show ?thesis by (intro conjI a b c d)
qed

section \<open>Notifications of likes, comments and follows\<close>

lemma app_comment:
  "authenticateToken e auth = Inr user \<Longrightarrow>
     app e d (PostComments auth p c) = add_comment_handler e d user p c"
  by (simp add: with_auth_def)

lemma comment_notifications:
  assumes content: "c \<noteq> []"
    and usr: "user_exists d (userId user)"
    and post: "first_row (filter (\<lambda>q. p_id q = p) (posts d)) = Some post"
    and owner: "user_exists d (p_user_id post)"
  shows "status (fst (add_comment_handler e d user p (Some c))) = 201
       \<and> notifications (snd (add_comment_handler e d user p (Some c))) =
           (if p_user_id post \<noteq> userId user
            then notifications d @ [\<lparr>n_id = next_notification_id d,
                   n_user_id = p_user_id post, n_type = ''comment'',
                   n_source_user_id = userId user, n_post_id = Some p,
                   n_is_read = False, n_created_at = now e\<rparr>]
            else notifications d)"
proof -
  have pe: "post_exists d p"
    using post by (simp add: post_exists_first_row)
  have "insert_comment d (userId user) p c (now e) =
      Inr (next_comment_id d,
           d\<lparr>comments := comments d @ [\<lparr>c_id = next_comment_id d, c_user_id = userId user,
                  c_post_id = p, c_content = c, c_created_at = now e\<rparr>],
             next_comment_id := next_comment_id d + 1\<rparr>)"
    using usr pe by (simp add: insert_comment_def)
  then show ?thesis
    using content usr post owner pe
    by (simp add: add_comment_handler_def Let_def truthy_def insert_notification_def
          user_exists_def post_exists_def post_ref_exists_def json_def)
qed

text \<open>
  Claim C3, as amended. For the user \<open>u\<close> of a valid token who is in the users table, in
  a database where post ids are distinct and every post has an existing author: a
  request that likes a post (one \<open>u\<close> did not like before) or comments on a post (with
  non-empty content) appends one notification of type like or comment for the post's
  owner, with \<open>source_user_id = u\<close> and the post's id, provided the owner is not \<open>u\<close>;
  when \<open>u\<close> owns the post the notifications table stays as it is. A request that
  follows another existing user (one \<open>u\<close> did not follow before) appends one
  notification of type follow for that user, with \<open>source_user_id = u\<close> and no post.
\<close>

theorem notification_writes:
  assumes auth: "authenticateToken e auth = Inr user"
    and usr: "user_exists d (userId user)"
    and pk: "distinct (map p_id (posts d))"
    and fk: "fk_posts d"
  shows "(\<forall>post\<in>set (posts d). (userId user, p_id post) \<notin> set (like_pairs d) \<longrightarrow>
            notifications (snd (app e d (PostLike auth (p_id post)))) =
              (if p_user_id post \<noteq> userId user
               then notifications d @ [\<lparr>n_id = next_notification_id d,
                      n_user_id = p_user_id post, n_type = ''like'',
                      n_source_user_id = userId user, n_post_id = Some (p_id post),
                      n_is_read = False, n_created_at = now e\<rparr>]
               else notifications d))
       \<and> (\<forall>post\<in>set (posts d). \<forall>c. c \<noteq> [] \<longrightarrow>
            notifications (snd (app e d (PostComments auth (p_id post) (Some c)))) =
              (if p_user_id post \<noteq> userId user
               then notifications d @ [\<lparr>n_id = next_notification_id d,
                      n_user_id = p_user_id post, n_type = ''comment'',
                      n_source_user_id = userId user, n_post_id = Some (p_id post),
                      n_is_read = False, n_created_at = now e\<rparr>]
               else notifications d))
       \<and> (\<forall>t. t \<noteq> userId user \<and> user_exists d t \<and> (userId user, t) \<notin> set (follow_pairs d) \<longrightarrow>
            notifications (snd (app e d (PostFollow auth t))) =
              notifications d @ [\<lparr>n_id = next_notification_id d, n_user_id = t,
                n_type = ''follow'', n_source_user_id = userId user, n_post_id = None,
                n_is_read = False, n_created_at = now e\<rparr>])"
proof (intro conjI ballI allI impI)
  fix post
  assume p: "post \<in> set (posts d)" and absent: "(userId user, p_id post) \<notin> set (like_pairs d)"
  have row: "first_row (filter (\<lambda>q. p_id q = p_id post) (posts d)) = Some post"
    using pk p by (rule first_row_filter_distinct)
  have owner: "user_exists d (p_user_id post)"
    using fk p by (simp add: fk_posts_def)
  show "notifications (snd (app e d (PostLike auth (p_id post)))) =
      (if p_user_id post \<noteq> userId user
       then notifications d @ [\<lparr>n_id = next_notification_id d,
              n_user_id = p_user_id post, n_type = ''like'',
              n_source_user_id = userId user, n_post_id = Some (p_id post),
              n_is_read = False, n_created_at = now e\<rparr>]
       else notifications d)"
    unfolding app_like [OF auth] like_absent [OF absent usr row owner] by simp
next
  fix post and c :: string
  assume p: "post \<in> set (posts d)" and c: "c \<noteq> []"
  have row: "first_row (filter (\<lambda>q. p_id q = p_id post) (posts d)) = Some post"
    using pk p by (rule first_row_filter_distinct)
  have owner: "user_exists d (p_user_id post)"
    using fk p by (simp add: fk_posts_def)
  show "notifications (snd (app e d (PostComments auth (p_id post) (Some c)))) =
      (if p_user_id post \<noteq> userId user
       then notifications d @ [\<lparr>n_id = next_notification_id d,
              n_user_id = p_user_id post, n_type = ''comment'',
              n_source_user_id = userId user, n_post_id = Some (p_id post),
              n_is_read = False, n_created_at = now e\<rparr>]
       else notifications d)"
    unfolding app_comment [OF auth]
    using comment_notifications [OF c usr row owner] by simp
next
  fix t
  assume "t \<noteq> userId user \<and> user_exists d t \<and> (userId user, t) \<notin> set (follow_pairs d)"
  then show "notifications (snd (app e d (PostFollow auth t))) =
      notifications d @ [\<lparr>n_id = next_notification_id d, n_user_id = t,
        n_type = ''follow'', n_source_user_id = userId user, n_post_id = None,
        n_is_read = False, n_created_at = now e\<rparr>]"
    using usr by (simp add: app_follow [OF auth] follow_absent del: app.simps)
qed

theorem notification_writes_witness:
  "notifications (snd (app env0 db0 (PostLike (Some ''Bearer jwt.bob@example.com'') 1))) =
     notifications db0 @ [\<lparr>n_id = 3, n_user_id = 1, n_type = ''like'',
       n_source_user_id = 2, n_post_id = Some 1, n_is_read = False, n_created_at = 100\<rparr>]
   \<and> notifications (snd (app env0 db0
        (PostComments (Some ''Bearer jwt.bob@example.com'') 1 (Some ''nice'')))) =
     notifications db0 @ [\<lparr>n_id = 3, n_user_id = 1, n_type = ''comment'',
       n_source_user_id = 2, n_post_id = Some 1, n_is_read = False, n_created_at = 100\<rparr>]
   \<and> notifications (snd (app env0 db0 (PostFollow (Some ''Bearer jwt.bob@example.com'') 1))) =
     notifications db0 @ [\<lparr>n_id = 3, n_user_id = 1, n_type = ''follow'',
       n_source_user_id = 2, n_post_id = None, n_is_read = False, n_created_at = 100\<rparr>]"
proof -
  let ?post = "\<lparr>p_id = 1, p_user_id = 1, p_content = ''hello'', p_created_at = 10\<rparr>"
  have bob: "user_exists db0 (userId bob)"
    by (simp add: user_exists_def db0_def bob_def)
  have pk: "distinct (map p_id (posts db0))"
    by (simp add: db0_def)
  have fk: "fk_posts db0"
    by (simp add: fk_posts_def user_exists_def db0_def)
  have post: "?post \<in> set (posts db0)"
    by (simp add: db0_def)
  have absent: "(userId bob, p_id ?post) \<notin> set (like_pairs db0)"
    by (simp add: like_pairs_def db0_def bob_def)
  have content: "''nice'' \<noteq> []"
    by simp
  have target: "1 \<noteq> userId bob \<and> user_exists db0 1 \<and> (userId bob, 1) \<notin> set (follow_pairs db0)"
    by (simp add: user_exists_def follow_pairs_def db0_def bob_def)
  note t = notification_writes [OF auth_bob bob pk fk]
  note a = t [THEN conjunct1, rule_format, OF post absent]
  note b = t [THEN conjunct2, THEN conjunct1, rule_format, OF post content]
  note c = t [THEN conjunct2, THEN conjunct2, rule_format, OF target]
  show ?thesis
    using a b c by (simp add: db0_def bob_def env0_def del: app.simps)
qed

text \<open>
  The claim as stated fails for a like of one's own post: alice likes her post 1, the
  answer is \<open>{liked: true}\<close>, and the notifications table is as before.
\<close>

theorem notification_writes_counterexample:
  "authenticateToken env0 (Some ''Bearer jwt.alice@example.com'') = Inr alice
   \<and> \<lparr>p_id = 1, p_user_id = userId alice, p_content = ''hello'', p_created_at = 10\<rparr>
       \<in> set (posts db0)
   \<and> (userId alice, 1) \<notin> set (like_pairs db0)
   \<and> fst (app env0 db0 (PostLike (Some ''Bearer jwt.alice@example.com'') 1)) =
       json 200 (LikedBody True)
   \<and> notifications (snd (app env0 db0 (PostLike (Some ''Bearer jwt.alice@example.com'') 1))) =
       notifications db0"
proof -
  have "\<lparr>p_id = 1, p_user_id = userId alice, p_content = ''hello'', p_created_at = 10\<rparr>
          \<in> set (posts db0)"
    and "(userId alice, 1) \<notin> set (like_pairs db0)"
    by (simp_all add: like_pairs_def db0_def alice_def)
  moreover have "fst (like_handler env0 db0 alice 1) = json 200 (LikedBody True)
      \<and> notifications (snd (like_handler env0 db0 alice 1)) = notifications db0"
    by (simp add: like_handler_def Let_def insert_like_def user_exists_def post_exists_def
          first_row_def db0_def alice_def)
  ultimately show ?thesis
    by (simp add: auth_alice app_like [OF auth_alice] del: app.simps)
qed

section \<open>The feed\<close>

lemma filter_key_distinct:
  assumes "distinct (map key ys)" and "y \<in> set ys"
  shows "filter (\<lambda>z. key y = key z) ys = [y]"
  using assms
proof (induction ys)
  case Nil
  then show ?case by simp
next
  case (Cons a ys)
  show ?case
  proof (cases "a = y")
    case True
    with Cons.prems have "key y \<notin> key ` set ys" by simp
    then have "filter (\<lambda>z. key y = key z) ys = []"
      by (force simp: filter_empty_conv image_iff)
    with True show ?thesis by simp
  next
    case False
    with Cons.prems have y: "y \<in> set ys" and "key a \<notin> key ` set ys"
      by simp_all
    then have "key y \<noteq> key a" by (metis image_eqI)
    with Cons y show ?thesis by simp
  qed
qed

lemma join_on_Cons:
  "join_on (x # xs) ys on = map (\<lambda>y. (x, y)) (filter (on x) ys) @ join_on xs ys on"
  by (simp add: join_on_def)

lemma join_on_set:
  "(x, y) \<in> set (join_on xs ys on) \<longleftrightarrow> x \<in> set xs \<and> y \<in> set ys \<and> on x y"
  by (auto simp: join_on_def)

lemma join_on_fst:
  assumes "distinct (map key ys)" and "\<forall>x\<in>set xs. ref x \<in> key ` set ys"
  shows "map fst (join_on xs ys (\<lambda>x y. ref x = key y)) = xs"
  using assms(2)
proof (induction xs)
  case Nil
  show ?case by (simp add: join_on_def)
next
  case (Cons x xs)
  then obtain y where y: "y \<in> set ys" "ref x = key y"
    by auto
  have "filter (\<lambda>z. ref x = key z) ys = [y]"
    using filter_key_distinct [OF assms(1) y(1)] y(2) by simp
  with Cons show ?case
    by (simp add: join_on_Cons)
qed

lemma order_by_desc_mset: "mset (order_by_desc created xs) = mset xs"
  by (simp add: order_by_desc_def)

lemma order_by_desc_mset_map: "mset (map f (order_by_desc created xs)) = mset (map f xs)"
  by (simp add: order_by_desc_def)

lemma order_by_desc_set: "set (order_by_desc created xs) = set xs"
  by (simp add: order_by_desc_def)

lemma order_by_desc_descending: "descending (map created (order_by_desc created xs))"
proof -
  have "sorted (map (\<lambda>x. - int (created x)) (order_by_desc created xs))"
    unfolding order_by_desc_def by (rule sorted_sort_key)
  then show ?thesis
    by (simp add: descending_def sorted_wrt_map)
qed

lemma followed_iff:
  "p_user_id p \<in> set (map f_following_id (filter (\<lambda>f. f_follower_id f = uid) (follows d)))
     \<longleftrightarrow> (uid, p_user_id p) \<in> set (follow_pairs d)"
  by (auto simp: follow_pairs_def image_iff)

lemma app_feed:
  "authenticateToken e auth = Inr user \<Longrightarrow>
     app e d (GetFeed auth) = (json 200 (FeedBody (feed_query d (userId user))), d)"
  by (simp add: with_auth_def feed_handler_def)

lemma feed_query_posts:
  assumes pk: "distinct (map u_id (users d))" and fk: "fk_posts d"
  shows "mset (map fr_post (feed_query d uid)) =
           mset (filter (\<lambda>p. p_user_id p = uid \<or> (uid, p_user_id p) \<in> set (follow_pairs d))
                   (posts d))"
proof -
  let ?J = "join_on (posts d) (users d) (\<lambda>p u. p_user_id p = u_id u)"
  let ?P = "\<lambda>p. (uid, p_user_id p) \<in> set (follow_pairs d) \<or> p_user_id p = uid"
  have refs: "\<forall>p\<in>set (posts d). p_user_id p \<in> u_id ` set (users d)"
    using fk by (simp add: fk_posts_def user_exists_def)
  have J: "map fst ?J = posts d"
    using pk refs by (rule join_on_fst)
  let ?rows = "map (\<lambda>(p, u). \<lparr>fr_post = p, fr_username = u_username u,
            fr_email = u_email u\<rparr>) (filter (\<lambda>(p, u). ?P p) ?J)"
  have "map fr_post ?rows = map fst (filter (\<lambda>(p, u). ?P p) ?J)"
    by (simp add: case_prod_unfold)
  also have "\<dots> = filter ?P (map fst ?J)"
    by (simp add: filter_map comp_def case_prod_unfold)
  also have "\<dots> = filter ?P (posts d)"
    by (simp only: J)
  finally have rows: "map fr_post ?rows = filter ?P (posts d)" .
  have "feed_query d uid = order_by_desc (\<lambda>r. p_created_at (fr_post r)) ?rows"
    by (simp only: feed_query_def followed_iff)
  then have "mset (map fr_post (feed_query d uid)) = mset (map fr_post ?rows)"
    by (simp only: order_by_desc_mset_map)
  then have "mset (map fr_post (feed_query d uid)) = mset (filter ?P (posts d))"
    by (simp only: rows)
  also have "filter ?P (posts d) =
      filter (\<lambda>p. p_user_id p = uid \<or> (uid, p_user_id p) \<in> set (follow_pairs d)) (posts d)"
    by (rule filter_cong) auto
  finally show ?thesis .
qed

lemma feed_query_author:
  assumes "r \<in> set (feed_query d uid)"
  shows "\<exists>a\<in>set (users d). u_id a = p_user_id (fr_post r)
           \<and> fr_username r = u_username a \<and> fr_email r = u_email a"
  using assms
  by (auto simp: feed_query_def order_by_desc_set join_on_set)

lemma feed_query_descending:
  "descending (map (\<lambda>r. p_created_at (fr_post r)) (feed_query d uid))"
  unfolding feed_query_def by (rule order_by_desc_descending)

text \<open>
  Claim C1. For the user \<open>u\<close> of a valid token, in a database where user ids are
  distinct and every post has an existing author, GET /api/feed answers 200 with a
  list of rows and leaves the database as it is; the posts of the rows are, with
  multiplicity, exactly the posts whose author is \<open>u\<close> or a user \<open>u\<close> follows; every
  row carries the username and the email of its post's author; and the rows are in
  descending order of \<open>created_at\<close>.
\<close>

theorem feed_content:
  assumes auth: "authenticateToken e auth = Inr user"
    and pk: "distinct (map u_id (users d))"
    and fk: "fk_posts d"
  shows "\<exists>rows. app e d (GetFeed auth) = (json 200 (FeedBody rows), d)
           \<and> mset (map fr_post rows) =
               mset (filter (\<lambda>p. p_user_id p = userId user
                                \<or> (userId user, p_user_id p) \<in> set (follow_pairs d)) (posts d))
           \<and> (\<forall>r\<in>set rows. \<exists>a\<in>set (users d). u_id a = p_user_id (fr_post r)
                  \<and> fr_username r = u_username a \<and> fr_email r = u_email a)
           \<and> descending (map (\<lambda>r. p_created_at (fr_post r)) rows)"
proof (intro exI conjI)
  show "app e d (GetFeed auth) = (json 200 (FeedBody (feed_query d (userId user))), d)"
    using auth by (rule app_feed)
  show "mset (map fr_post (feed_query d (userId user))) =
          mset (filter (\<lambda>p. p_user_id p = userId user
                           \<or> (userId user, p_user_id p) \<in> set (follow_pairs d)) (posts d))"
    using pk fk by (rule feed_query_posts)
  show "\<forall>r\<in>set (feed_query d (userId user)). \<exists>a\<in>set (users d).
          u_id a = p_user_id (fr_post r) \<and> fr_username r = u_username a
          \<and> fr_email r = u_email a"
    by (blast dest: feed_query_author)
  show "descending (map (\<lambda>r. p_created_at (fr_post r)) (feed_query d (userId user)))"
    by (rule feed_query_descending)
qed

theorem feed_content_witness:
  "\<exists>rows. app env0 db0 (GetFeed (Some ''Bearer jwt.alice@example.com'')) =
            (json 200 (FeedBody rows), db0)
     \<and> mset (map fr_post rows) = mset (posts db0)
     \<and> descending (map (\<lambda>r. p_created_at (fr_post r)) rows)"
proof -
  have pk: "distinct (map u_id (users db0))"
    by (simp add: db0_def)
  have fk: "fk_posts db0"
    by (simp add: fk_posts_def user_exists_def db0_def)
  have all: "filter (\<lambda>p. p_user_id p = userId alice
                          \<or> (userId alice, p_user_id p) \<in> set (follow_pairs db0)) (posts db0)
             = posts db0"
    by (simp add: follow_pairs_def db0_def alice_def)
  show ?thesis
    using feed_content [OF auth_alice pk fk] unfolding all
    by (elim exE conjE) (intro exI conjI; assumption)
qed

lemma feed_example:
  "app env0 db0 (GetFeed (Some ''Bearer jwt.alice@example.com'')) =
     (json 200 (FeedBody
        [\<lparr>fr_post = \<lparr>p_id = 2, p_user_id = 2, p_content = ''world'', p_created_at = 20\<rparr>,
          fr_username = ''bob'', fr_email = ''bob@example.com''\<rparr>,
         \<lparr>fr_post = \<lparr>p_id = 1, p_user_id = 1, p_content = ''hello'', p_created_at = 10\<rparr>,
          fr_username = ''alice'', fr_email = ''alice@example.com''\<rparr>]), db0)"
  unfolding app_feed [OF auth_alice]
  by (simp add: feed_query_def join_on_def order_by_desc_def db0_def alice_def)

section \<open>Login\<close>

lemma first_row_filter_unique:
  assumes "distinct (map key xs)"
  shows "first_row (filter (\<lambda>y. key y = k) xs) = Some x \<longleftrightarrow> x \<in> set xs \<and> key x = k"
proof
  assume "first_row (filter (\<lambda>y. key y = k) xs) = Some x"
  then show "x \<in> set xs \<and> key x = k"
    by (rule first_row_filter_Some)
next
  assume "x \<in> set xs \<and> key x = k"
  then show "first_row (filter (\<lambda>y. key y = k) xs) = Some x"
    using first_row_filter_distinct [OF assms, of x] by auto
qed

text \<open>
  Claim C6, as amended. POST /api/auth/login with an email and a password submitted, in
  a database where emails are distinct: the response is 401 with \<open>Invalid credentials\<close> exactly
  when no user has the submitted email and a password hash against which the
  submitted password verifies; otherwise it is 200 with the token signed for that
  user's id, email and admin flag and with that user's row without its password hash.
  Whatever is submitted, the database is left as it is.
\<close>

theorem login_response:
  assumes uq: "distinct (map u_email (users d))"
  shows "(fst (app e d (PostLogin (Some em) (Some pw))) = json 401 (ErrorBody ''Invalid credentials'')
            \<longleftrightarrow> \<not> (\<exists>u\<in>set (users d). u_email u = em \<and> bcrypt_compare e pw (u_password_hash u)))
       \<and> (\<forall>u\<in>set (users d). u_email u = em \<and> bcrypt_compare e pw (u_password_hash u) \<longrightarrow>
            fst (app e d (PostLogin (Some em) (Some pw))) =
              json 200 (AuthBody (jwt_sign e \<lparr>userId = u_id u, email = u_email u,
                                               isAdmin = u_is_admin u\<rparr>)
                          \<lparr>ui_id = u_id u, ui_username = u_username u, ui_email = u_email u,
                           ui_is_admin = u_is_admin u, ui_created_at = u_created_at u\<rparr>))
       \<and> snd (app e d (PostLogin x y)) = d"
proof (intro conjI ballI impI)
  show "snd (app e d (PostLogin x y)) = d"
    by (simp add: login_writes)
next
  fix u
  assume u: "u \<in> set (users d)" and ok: "u_email u = em \<and> bcrypt_compare e pw (u_password_hash u)"
  then have "first_row (filter (\<lambda>y. u_email y = em) (users d)) = Some u"
    by (simp add: first_row_filter_unique [OF uq])
  then show "fst (app e d (PostLogin (Some em) (Some pw))) =
      json 200 (AuthBody (jwt_sign e \<lparr>userId = u_id u, email = u_email u,
                                       isAdmin = u_is_admin u\<rparr>)
                  \<lparr>ui_id = u_id u, ui_username = u_username u, ui_email = u_email u,
                   ui_is_admin = u_is_admin u, ui_created_at = u_created_at u\<rparr>)"
    using ok by (simp add: login_handler_def user_info_of_def)
next
  show "fst (app e d (PostLogin (Some em) (Some pw))) = json 401 (ErrorBody ''Invalid credentials'')
          \<longleftrightarrow> \<not> (\<exists>u\<in>set (users d). u_email u = em \<and> bcrypt_compare e pw (u_password_hash u))"
  proof (cases "first_row (filter (\<lambda>y. u_email y = em) (users d))")
    case None
    then have "\<forall>u\<in>set (users d). u_email u \<noteq> em"
      by (simp add: first_row_None filter_empty_conv)
    with None show ?thesis
      by (auto simp: login_handler_def)
  next
    case (Some v)
    have only: "u \<in> set (users d) \<and> u_email u = em \<longleftrightarrow> u = v" for u
      unfolding first_row_filter_unique [OF uq, symmetric] Some by auto
    have "(\<exists>u\<in>set (users d). u_email u = em \<and> bcrypt_compare e pw (u_password_hash u))
        \<longleftrightarrow> bcrypt_compare e pw (u_password_hash v)"
      using only by (metis (no_types))
    with Some show ?thesis
      by (simp add: login_handler_def json_def)
  qed
qed

theorem login_response_witness:
  "fst (app env0 db0 (PostLogin (Some ''alice@example.com'') (Some ''wonderland''))) =
     json 200 (AuthBody ''jwt.alice@example.com''
                 \<lparr>ui_id = 1, ui_username = ''alice'', ui_email = ''alice@example.com'',
                  ui_is_admin = False, ui_created_at = 1\<rparr>)
   \<and> fst (app env0 db0 (PostLogin (Some ''alice@example.com'') (Some ''builder''))) =
     json 401 (ErrorBody ''Invalid credentials'')
   \<and> fst (app env0 db0 (PostLogin (Some ''carol@example.com'') (Some ''wonderland''))) =
     json 401 (ErrorBody ''Invalid credentials'')"
proof -
  let ?alice = "\<lparr>u_id = 1, u_username = ''alice'', u_email = ''alice@example.com'',
                  u_password_hash = ''$2a$10$wonderland'', u_is_admin = False,
                  u_created_at = 1\<rparr>"
  have uq: "distinct (map u_email (users db0))"
    by (simp add: db0_def)
  have a: "?alice \<in> set (users db0)"
    by (simp add: db0_def)
  have ok: "u_email ?alice = ''alice@example.com''
              \<and> bcrypt_compare env0 ''wonderland'' (u_password_hash ?alice)"
    by (simp add: env0_def)
  have wrong: "\<not> (\<exists>u\<in>set (users db0). u_email u = ''alice@example.com''
                    \<and> bcrypt_compare env0 ''builder'' (u_password_hash u))"
    by (simp add: db0_def env0_def)
  have nobody: "\<not> (\<exists>u\<in>set (users db0). u_email u = ''carol@example.com''
                    \<and> bcrypt_compare env0 ''wonderland'' (u_password_hash u))"
    by (simp add: db0_def env0_def)
  note t = login_response [OF uq, of env0]
  note r1 = t [THEN conjunct2, THEN conjunct1, rule_format, OF a ok]
  note r2 = t [of "''alice@example.com''" "''builder''", THEN conjunct1, THEN iffD2, OF wrong]
  note r3 = t [of "''carol@example.com''" "''wonderland''", THEN conjunct1, THEN iffD2, OF nobody]
  show ?thesis
    using r1 r2 r3 by (simp add: env0_def del: app.simps)
qed

text \<open>
  The claim as stated fails for a request that leaves a field out. Alice is a user;
  a login with her email and no password is answered 500, and so is a login with no
  email: neither the 401 response nor a token.
\<close>

theorem login_response_counterexample:
  "\<lparr>u_id = 1, u_username = ''alice'', u_email = ''alice@example.com'',
     u_password_hash = ''$2a$10$wonderland'', u_is_admin = False, u_created_at = 1\<rparr>
       \<in> set (users db0)
   \<and> app env0 db0 (PostLogin (Some ''alice@example.com'') None) =
       (json 500 (ErrorBody ''Internal server error''), db0)
   \<and> app env0 db0 (PostLogin None (Some ''wonderland'')) =
       (json 500 (ErrorBody ''Internal server error''), db0)"
proof -
  have "\<lparr>u_id = 1, u_username = ''alice'', u_email = ''alice@example.com'',
     u_password_hash = ''$2a$10$wonderland'', u_is_admin = False, u_created_at = 1\<rparr>
       \<in> set (users db0)"
    by (simp add: db0_def)
  moreover have "login_handler env0 db0 (Some ''alice@example.com'') None =
      (json 500 (ErrorBody ''Internal server error''), db0)"
    by (simp add: login_handler_def first_row_def internal_error_def db0_def)
  moreover have "login_handler env0 db0 None (Some ''wonderland'') =
      (json 500 (ErrorBody ''Internal server error''), db0)"
    by (simp add: login_handler_def internal_error_def)
  ultimately show ?thesis
    by simp
qed

section \<open>The profile route\<close>

text \<open>
  Claim C8. GET /api/users/:userId runs its handler with no \<open>req.user\<close>, whatever
  Authorization header the request carries: the answer is either 404 or a profile
  whose \<open>isFollowing\<close> is false, and the database is left as it is.
\<close>

theorem profile_never_following:
  "app e d (GetUser auth uid) = get_user_handler d None uid
   \<and> ((\<exists>pr. app e d (GetUser auth uid) = (json 200 (ProfileBody pr), d)
            \<and> pr_isFollowing pr = False)
        \<or> app e d (GetUser auth uid) = (json 404 (ErrorBody ''User not found''), d))"
  by (auto simp: get_user_handler_def Let_def json_def split: option.splits)

text \<open>
  So for alice, who holds a valid token and follows bob: the route answers
  \<open>isFollowing = False\<close> for bob's profile, where the handler run on her identity would
  answer \<open>True\<close>.
\<close>

theorem profile_never_following_witness:
  "authenticateToken env0 (Some ''Bearer jwt.alice@example.com'') = Inr alice
   \<and> (userId alice, 2) \<in> set (follow_pairs db0)
   \<and> (\<exists>pr. app env0 db0 (GetUser (Some ''Bearer jwt.alice@example.com'') 2) =
              (json 200 (ProfileBody pr), db0) \<and> pr_isFollowing pr = False)
   \<and> (\<exists>pr. get_user_handler db0 (Some alice) 2 = (json 200 (ProfileBody pr), db0)
          \<and> pr_isFollowing pr = True)"
proof -
  have f: "(userId alice, 2) \<in> set (follow_pairs db0)"
    by (simp add: follow_pairs_def db0_def alice_def)
  have found: "get_user_handler db0 None 2 \<noteq> (json 404 (ErrorBody ''User not found''), db0)"
    by (simp add: get_user_handler_def Let_def first_row_def json_def db0_def)
  note t = profile_never_following [of env0 db0 "Some ''Bearer jwt.alice@example.com''" 2]
  have eq: "app env0 db0 (GetUser (Some ''Bearer jwt.alice@example.com'') 2) =
      get_user_handler db0 None 2"
    using t by (rule conjunct1)
  have route: "\<exists>pr. app env0 db0 (GetUser (Some ''Bearer jwt.alice@example.com'') 2) =
              (json 200 (ProfileBody pr), db0) \<and> pr_isFollowing pr = False"
    using t [THEN conjunct2]
  proof
    assume "\<exists>pr. app env0 db0 (GetUser (Some ''Bearer jwt.alice@example.com'') 2) =
              (json 200 (ProfileBody pr), db0) \<and> pr_isFollowing pr = False"
    then show ?thesis .
  next
    assume "app env0 db0 (GetUser (Some ''Bearer jwt.alice@example.com'') 2) =
              (json 404 (ErrorBody ''User not found''), db0)"
    with found eq show ?thesis
      by (simp del: app.simps)
  qed
  have handler: "\<exists>pr. get_user_handler db0 (Some alice) 2 = (json 200 (ProfileBody pr), db0)
          \<and> pr_isFollowing pr = True"
    by (simp add: get_user_handler_def Let_def first_row_def json_def db0_def alice_def)
  show ?thesis
    using auth_alice f route handler by (intro conjI)
qed

section \<open>Administrators\<close>








end
